theory Spec2Isabelle
  imports Main "HOL-Library.Monad_Syntax"
begin

section \<open>JavaScript values\<close>

text \<open>
  Opaque JSON payloads (booking responses, custom inputs, metadata, booking fields) are
  carried around as uninterpreted text: the orchestrator only hands them to parsers.
\<close>

type_synonym json = string

text \<open>
  \<^verbatim>\<open>x || d\<close> on a nullable string: \<^verbatim>\<open>null\<close>, \<^verbatim>\<open>undefined\<close> and the empty string are
  falsy. \<^verbatim>\<open>x ?? d\<close> only replaces \<^verbatim>\<open>null\<close> and \<^verbatim>\<open>undefined\<close>.
\<close>

definition or_default :: "string option \<Rightarrow> string \<Rightarrow> string" where
  "or_default x d = (case x of None \<Rightarrow> d | Some s \<Rightarrow> if s = [] then d else s)"

definition nullish_default :: "string option \<Rightarrow> string \<Rightarrow> string" where
  "nullish_default x d = (case x of None \<Rightarrow> d | Some s \<Rightarrow> s)"

definition or_undefined :: "string option \<Rightarrow> string option" where
  "or_undefined x = (case x of None \<Rightarrow> None | Some s \<Rightarrow> if s = [] then None else Some s)"

definition truthy_number :: "int option \<Rightarrow> bool" where
  "truthy_number x = (case x of None \<Rightarrow> False | Some n \<Rightarrow> n \<noteq> 0)"

text \<open>
  A JavaScript object is an identity together with its contents. \<^verbatim>\<open>Array.prototype.includes\<close>
  compares with SameValueZero, which on objects is identity, and an object literal
  evaluates to an object whose identity differs from that of every object already alive.
\<close>

datatype 'a js_object = JSObject (ref: nat) (contents: 'a)

definition fresh_ref :: "'a js_object list \<Rightarrow> nat" where
  "fresh_ref live = Suc (fold max (map ref live) 0)"

definition object_literal :: "'a js_object list \<Rightarrow> 'a \<Rightarrow> 'a js_object" where
  "object_literal live c = JSObject (fresh_ref live) c"

definition array_includes :: "'a js_object list \<Rightarrow> 'a js_object \<Rightarrow> bool" where
  "array_includes xs x = list_ex (\<lambda>y. ref y = ref x) xs"

section \<open>Errors\<close>

datatype ErrorCode = InvalidRoundRobinHost | UserIsFixed

fun ErrorCode_value :: "ErrorCode \<Rightarrow> string" where
  "ErrorCode_value InvalidRoundRobinHost = ''invalid_round_robin_host''"
| "ErrorCode_value UserIsFixed = ''user_is_round_robin_fixed''"

text \<open>\<^verbatim>\<open>throw new Error(message)\<close>: the thrown value, identified by its message.\<close>

datatype error = Error string

section \<open>Stored rows and what a query returns\<close>

record user =
  user_id :: int
  user_email :: string
  user_name :: "string option"
  user_username :: "string option"
  user_timeZone :: string
  user_locale :: "string option"
  user_timeFormat :: "int option"
  user_metadata :: json

record attendee =
  attendee_id :: int
  attendee_bookingId :: "int option"
  attendee_email :: string
  attendee_name :: string
  attendee_timeZone :: string
  attendee_locale :: "string option"
  attendee_phoneNumber :: "string option"

record booking_row =
  row_id :: int
  row_uid :: string
  row_userId :: "int option"
  row_userPrimaryEmail :: "string option"
  row_eventTypeId :: "int option"
  row_title :: string
  row_location :: "string option"
  row_startTime :: string
  row_endTime :: string
  row_responses :: json
  row_customInputs :: json

text \<open>
  The result of a booking query with \<^verbatim>\<open>select: bookingSelect\<close>: the scalar columns, the
  related user (\<^verbatim>\<open>booking.user\<close>) and the related attendees (\<^verbatim>\<open>booking.attendees\<close>).
  The declaration of \<^verbatim>\<open>bookingSelect\<close> is not among the source files; the fields are the
  ones the orchestrator reads.
\<close>

record booking =
  booking_id :: int
  booking_uid :: string
  booking_userId :: "int option"
  booking_eventTypeId :: "int option"
  booking_title :: string
  booking_location :: "string option"
  booking_startTime :: string
  booking_endTime :: string
  booking_responses :: json
  booking_customInputs :: json
  booking_user :: "user option"
  booking_attendees :: "attendee list"

record location =
  location_type :: string
  location_link :: "string option"

record team_row =
  team_id :: int
  team_name :: string
  team_parentId :: "int option"

record host_row =
  host_userId :: int
  host_row_isFixed :: bool
  host_row_priority :: "int option"
  host_row_weight :: "int option"

record eventType_row =
  et_row_id :: int
  et_row_slug :: string
  et_row_title :: string
  et_row_eventName :: "string option"
  et_row_description :: "string option"
  et_row_length :: int
  et_row_locations :: "location js_object list"
  et_row_bookingFields :: json
  et_row_metadata :: json
  et_row_teamId :: "int option"
  et_row_team :: "team_row option"
  et_row_ownerHideBranding :: "bool option"
  et_row_hosts :: "host_row list"
  et_row_users :: "int list"

text \<open>A host as the event type query returns it, with the related user loaded.\<close>

record host =
  host_user :: user
  host_isFixed :: bool
  host_priority :: "int option"
  host_weight :: "int option"
  host_weightAdjustment :: "int option"
  host_schedule :: "int option"

record eventType =
  et_id :: int
  et_slug :: string
  et_title :: string
  et_eventName :: "string option"
  et_description :: "string option"
  et_length :: int
  et_locations :: "location js_object list"
  et_bookingFields :: json
  et_metadata :: json
  et_teamId :: "int option"
  et_team :: "team_row option"
  et_ownerHideBranding :: "bool option"
  et_hosts :: "host list"
  et_users :: "user list"

record credential =
  credential_id :: int
  credential_userId :: "int option"
  credential_type :: string
  credential_key :: json

record destinationCalendar =
  dc_id :: int
  dc_userId :: "int option"
  dc_integration :: string
  dc_externalId :: string

text \<open>A calendar-provider reference: the provider and the provider's identifier of the entry.\<close>

record reference =
  reference_type :: string
  reference_uid :: string

datatype WorkflowMethods = EMAIL | SMS | WHATSAPP

datatype WorkflowActions = EMAIL_HOST | EMAIL_ATTENDEE | EMAIL_ADDRESS | SMS_ATTENDEE | SMS_NUMBER

datatype WorkflowTriggerEvents =
  BEFORE_EVENT | EVENT_CANCELLED | NEW_EVENT | AFTER_EVENT | RESCHEDULE_EVENT

record workflow_sel =
  wf_trigger :: WorkflowTriggerEvents
  wf_time :: "int option"
  wf_timeUnit :: "string option"

record workflowStep_row =
  step_action :: WorkflowActions
  step_template :: string
  step_workflow :: "workflow_sel option"

record workflowReminder =
  reminder_id :: int
  reminder_referenceId :: "string option"
  reminder_bookingUid :: "string option"
  reminder_method :: WorkflowMethods
  reminder_workflowStep :: "workflowStep_row option"

record workflow =
  workflow_id :: int
  workflow_trigger :: WorkflowTriggerEvents
  workflow_isActiveOnAll :: bool
  workflow_teamId :: "int option"
  workflow_activeOn :: "int list"
  workflow_activeOnTeams :: "int list"
  workflow_steps :: "workflowStep_row list"

text \<open>
  The storage the orchestrator works on: one list of rows per table. A row is looked up
  by the first match on its key and an update rewrites every row with the key, so the
  two agree whether or not the key is unique in the list.
\<close>

record db =
  bookings :: "booking_row list"
  attendees :: "attendee list"
  users :: "user list"
  eventTypes :: "eventType_row list"
  credentials :: "credential list"
  destinationCalendars :: "destinationCalendar list"
  bookingReferences :: "(int \<times> reference) list"
  workflowReminders :: "workflowReminder list"
  workflows :: "workflow list"

definition findUser :: "db \<Rightarrow> int \<Rightarrow> user option" where
  "findUser d uid = find (\<lambda>u. user_id u = uid) (users d)"

definition selectBooking :: "db \<Rightarrow> booking_row \<Rightarrow> booking" where
  "selectBooking d r =
     \<lparr> booking_id = row_id r,
       booking_uid = row_uid r,
       booking_userId = row_userId r,
       booking_eventTypeId = row_eventTypeId r,
       booking_title = row_title r,
       booking_location = row_location r,
       booking_startTime = row_startTime r,
       booking_endTime = row_endTime r,
       booking_responses = row_responses r,
       booking_customInputs = row_customInputs r,
       booking_user = (case row_userId r of None \<Rightarrow> None | Some uid \<Rightarrow> findUser d uid),
       booking_attendees = filter (\<lambda>a. attendee_bookingId a = Some (row_id r)) (attendees d) \<rparr>"

text \<open>\<^verbatim>\<open>prisma.booking.findUnique({ where: { id }, select: bookingSelect })\<close>\<close>

definition booking_findUnique :: "db \<Rightarrow> int \<Rightarrow> booking option" where
  "booking_findUnique d bid = map_option (selectBooking d) (find (\<lambda>r. row_id r = bid) (bookings d))"

text \<open>
  \<^verbatim>\<open>prisma.booking.update({ where: { id }, data: { userId, title, userPrimaryEmail },
  select: bookingSelect })\<close>: writes the three columns and returns the row as stored after
  the write. Prisma throws when no row has the id.
\<close>

definition booking_update :: "db \<Rightarrow> int \<Rightarrow> int \<Rightarrow> string \<Rightarrow> string \<Rightarrow> error + (db \<times> booking)" where
  "booking_update d bid userId title userPrimaryEmail =
     (let d' = d\<lparr> bookings :=
                 map (\<lambda>r. if row_id r = bid
                          then r\<lparr> row_userId := Some userId, row_title := title,
                                  row_userPrimaryEmail := Some userPrimaryEmail \<rparr>
                          else r) (bookings d) \<rparr>
      in case booking_findUnique d' bid of
           None \<Rightarrow> Inl (Error ''Record to update not found.'')
         | Some b \<Rightarrow> Inr (d', b))"

text \<open>
  \<^verbatim>\<open>prisma.attendee.update({ where: { id }, data: { name, email, timeZone, locale } })\<close>
\<close>

definition attendee_update ::
  "db \<Rightarrow> int \<Rightarrow> string \<Rightarrow> string \<Rightarrow> string \<Rightarrow> string option \<Rightarrow> error + db" where
  "attendee_update d aid name email timeZone locale =
     (if list_ex (\<lambda>a. attendee_id a = aid) (attendees d)
      then Inr (d\<lparr> attendees :=
                    map (\<lambda>a. if attendee_id a = aid
                             then a\<lparr> attendee_name := name, attendee_email := email,
                                     attendee_timeZone := timeZone, attendee_locale := locale \<rparr>
                             else a) (attendees d) \<rparr>)
      else Inl (Error ''Record to update not found.''))"

text \<open>
  Modelled from the spec: \<^verbatim>\<open>getEventTypesFromDB\<close> is not among the source files. The
  spec has it as the storage read \<^verbatim>\<open>getEventType(id) -> EventType?\<close> whose result carries
  the "event-type host list (or, if empty, the event-type's plain user list)": the row with
  the id, if any, with the user of every host and of every plain user loaded from the
  user table.
\<close>

definition loadHost :: "db \<Rightarrow> host_row \<Rightarrow> host option" where
  "loadHost d h =
     map_option
       (\<lambda>u. \<lparr> host_user = u, host_isFixed = host_row_isFixed h,
              host_priority = host_row_priority h, host_weight = host_row_weight h,
              host_weightAdjustment = None, host_schedule = None \<rparr>)
       (findUser d (host_userId h))"

definition getEventTypesFromDB :: "db \<Rightarrow> int \<Rightarrow> eventType option" where
  "getEventTypesFromDB d etid =
     map_option
       (\<lambda>e. \<lparr> et_id = et_row_id e,
              et_slug = et_row_slug e,
              et_title = et_row_title e,
              et_eventName = et_row_eventName e,
              et_description = et_row_description e,
              et_length = et_row_length e,
              et_locations = et_row_locations e,
              et_bookingFields = et_row_bookingFields e,
              et_metadata = et_row_metadata e,
              et_teamId = et_row_teamId e,
              et_team = et_row_team e,
              et_ownerHideBranding = et_row_ownerHideBranding e,
              et_hosts = List.map_filter (loadHost d) (et_row_hosts e),
              et_users = List.map_filter (findUser d) (et_row_users e) \<rparr>)
       (find (\<lambda>e. et_row_id e = etid) (eventTypes d))"

text \<open>\<^verbatim>\<open>prisma.credential.findMany({ where: { userId } })\<close>\<close>

definition credential_findMany :: "db \<Rightarrow> int \<Rightarrow> credential list" where
  "credential_findMany d uid = filter (\<lambda>c. credential_userId c = Some uid) (credentials d)"

text \<open>\<^verbatim>\<open>prisma.destinationCalendar.findFirst({ where: { userId } })\<close>\<close>

definition destinationCalendar_findFirst :: "db \<Rightarrow> int \<Rightarrow> destinationCalendar option" where
  "destinationCalendar_findFirst d uid = find (\<lambda>c. dc_userId c = Some uid) (destinationCalendars d)"

text \<open>
  Modelled from the spec: \<^verbatim>\<open>BookingReferenceRepository.replaceBookingReferences\<close> is not
  among the source files. The spec has it "atomically replace all stored calendar references
  for the meeting with exactly those returned by" the calendar sync: the references stored
  for the booking are dropped and the new ones stored for it; other bookings' references
  stay.
\<close>

definition replaceBookingReferences :: "db \<Rightarrow> int \<Rightarrow> reference list \<Rightarrow> db" where
  "replaceBookingReferences d bid newReferencesToCreate =
     d\<lparr> bookingReferences :=
          filter (\<lambda>(b, r). b \<noteq> bid) (bookingReferences d) @ map (Pair bid) newReferencesToCreate \<rparr>"

definition referencesOf :: "db \<Rightarrow> int \<Rightarrow> reference list" where
  "referencesOf d bid = map snd (filter (\<lambda>(b, r). b = bid) (bookingReferences d))"

section \<open>The calendar-event representation\<close>

text \<open>\<^verbatim>\<open>getTranslation(locale, "common")\<close>: a translator is a function of the locale.\<close>

datatype translator = Translator string string

definition getTranslation :: "string \<Rightarrow> string \<Rightarrow> translator" where
  "getTranslation loc ns = Translator loc ns"

record language =
  language_translate :: translator
  language_locale :: string

record person =
  person_email :: string
  person_name :: string
  person_timeZone :: string
  person_language :: language
  person_phoneNumber :: "string option"

record calendar_team =
  cteam_members :: "person list"
  cteam_name :: string
  cteam_id :: int

record CalendarEvent =
  evt_type :: string
  evt_title :: string
  evt_description :: "string option"
  evt_startTime :: string
  evt_endTime :: string
  evt_organizer :: person
  evt_attendees :: "person list"
  evt_uid :: string
  evt_destinationCalendar :: "destinationCalendar list option"
  evt_team :: calendar_team
  evt_customInputs :: "json option"
  evt_calEventResponses :: json
  evt_cancellationReason :: string

section \<open>Collaborators\<close>

record parsed_responses =
  responses_name :: "string option"
  responses_data :: json

record conferencingApp =
  appSlug :: "string option"
  appLink :: "string option"

record userMetadata =
  defaultConferencingApp :: "conferencingApp option"

record eventNameObj =
  en_attendeeName :: string
  en_eventType :: string
  en_eventName :: "string option"
  en_teamName :: "string option"
  en_host :: string
  en_location :: string
  en_bookingFields :: "parsed_responses option"
  en_eventDuration :: int
  en_t :: translator

text \<open>
  The functions the orchestrator imports from other modules and only calls: parsers,
  formatters, the calendar sync and the constant naming the "organizer's default
  conferencing app" location type. They are parameters of the model; every theorem
  holds for whatever they compute. A parser's \<^verbatim>\<open>safeParse\<close> returns its data or nothing.
\<close>

record deps =
  OrganizerDefaultConferencingAppType :: string
  responsesSafeParse :: "json \<Rightarrow> json \<Rightarrow> parsed_responses option"
  userMetadataSafeParse :: "json \<Rightarrow> userMetadata option"
  getLocationValueForDB :: "string \<Rightarrow> location js_object list \<Rightarrow> string"
  getEventName :: "eventNameObj \<Rightarrow> string"
  getDestinationCalendar ::
    "eventType \<Rightarrow> booking \<Rightarrow> int \<Rightarrow> bool \<Rightarrow> destinationCalendar list option"
  getTeamMembers :: "host list \<Rightarrow> attendee list \<Rightarrow> user \<Rightarrow> user \<Rightarrow> user \<Rightarrow> person list"
  getCalEventResponses :: "json \<Rightarrow> booking \<Rightarrow> json"
  isPrismaObjOrUndefined :: "json \<Rightarrow> json option"
  utcFormat :: "string \<Rightarrow> string"
  reschedule ::
    "user \<Rightarrow> credential list \<Rightarrow> CalendarEvent \<Rightarrow> string \<Rightarrow> bool
      \<Rightarrow> destinationCalendar list \<Rightarrow> reference list"
  getTimeFormatStringFromUserTimeFormat :: "int option \<Rightarrow> string"
  getVideoCallUrlFromCalEvent :: "CalendarEvent \<Rightarrow> string option"
  getBookerBaseUrl :: "int option \<Rightarrow> string"

section \<open>Effects\<close>

record recipient =
  recipient_user :: user
  recipient_name :: string
  recipient_username :: string
  recipient_timeFormat :: string
  recipient_language :: language

record emailReminderArgs =
  era_evt :: CalendarEvent
  era_videoCallUrl :: "string option"
  era_eventType :: eventType
  era_bookerUrl :: string
  era_action :: WorkflowActions
  era_triggerEvent :: WorkflowTriggerEvents
  era_time :: "int option"
  era_timeUnit :: "string option"
  era_sendTo :: string
  era_template :: string

record workflowRemindersArgs =
  wra_workflows :: "workflow list"
  wra_calendarEvent :: CalendarEvent
  wra_videoCallUrl :: "string option"
  wra_eventTypeSlug :: string
  wra_bookerUrl :: string
  wra_hideBranding :: bool

text \<open>
  Every call that writes to storage or leaves the process, in the order the calls are
  awaited.
\<close>

datatype effect =
    Booking_update int int string string
  | Attendee_update int string string string "string option"
  | EventManager_reschedule user "credential list" CalendarEvent string bool "destinationCalendar list"
  | ReplaceBookingReferences int "reference list"
  | SendRoundRobinScheduledEmailsAndSMS CalendarEvent "recipient list"
  | SendRoundRobinCancelledEmailsAndSMS CalendarEvent "recipient list" json
  | ScheduleEmailReminder emailReminderArgs
  | DeleteScheduledEmailReminder int "string option"
  | ScheduleWorkflowReminders workflowRemindersArgs

record outcome =
  out_db :: db
  out_effects :: "effect list"
  out_result :: "error + booking"

section \<open>Validating: the Host Role Resolver\<close>

definition eventTypeHosts_of :: "eventType \<Rightarrow> host list" where
  "eventTypeHosts_of eventType =
     (if length (et_hosts eventType) \<noteq> 0 then et_hosts eventType
      else map (\<lambda>u. \<lparr> host_user = u, host_isFixed = False, host_priority = Some 2,
                      host_weight = Some 100, host_weightAdjustment = Some 0,
                      host_schedule = None \<rparr>) (et_users eventType))"

definition fixedHost_of :: "host list \<Rightarrow> host option" where
  "fixedHost_of eventTypeHosts = find host_isFixed eventTypeHosts"

definition currentRRHost_of :: "host list \<Rightarrow> attendee list \<Rightarrow> attendee option" where
  "currentRRHost_of eventTypeHosts atts =
     find (\<lambda>a. list_ex (\<lambda>h. \<not> host_isFixed h \<and> user_email (host_user h) = attendee_email a)
                    eventTypeHosts) atts"

definition newUserHost_of :: "host list \<Rightarrow> int \<Rightarrow> host option" where
  "newUserHost_of eventTypeHosts newUserId =
     find (\<lambda>h. user_id (host_user h) = newUserId) eventTypeHosts"

record resolved =
  res_booking :: booking
  res_originalOrganizer :: user
  res_eventType :: eventType
  res_eventTypeHosts :: "host list"
  res_fixedHost :: "host option"
  res_currentRRHost :: "attendee option"
  res_newUserHost :: host

text \<open>Lines 53 to 98 of the source: the loads and the four guards, in their order.\<close>

definition validating :: "db \<Rightarrow> int \<Rightarrow> int \<Rightarrow> error + resolved" where
  "validating d bookingId newUserId =
     (case booking_findUnique d bookingId of
        None \<Rightarrow> Inl (Error ''Booking not found or has no associated user'')
      | Some b \<Rightarrow>
         (case booking_user b of
            None \<Rightarrow> Inl (Error ''Booking not found or has no associated user'')
          | Some originalOrganizer \<Rightarrow>
             (case (if truthy_number (booking_eventTypeId b) then booking_eventTypeId b else None) of
                None \<Rightarrow> Inl (Error ''Event type not found'')
              | Some eventTypeId \<Rightarrow>
                 (case getEventTypesFromDB d eventTypeId of
                    None \<Rightarrow> Inl (Error ''Event type not found'')
                  | Some eventType \<Rightarrow>
                     (let eventTypeHosts = eventTypeHosts_of eventType;
                          fixedHost = fixedHost_of eventTypeHosts;
                          currentRRHost = currentRRHost_of eventTypeHosts (booking_attendees b)
                      in (case newUserHost_of eventTypeHosts newUserId of
                            None \<Rightarrow> Inl (Error (ErrorCode_value InvalidRoundRobinHost))
                          | Some newUserHost \<Rightarrow>
                              (if host_isFixed newUserHost
                               then Inl (Error (ErrorCode_value UserIsFixed))
                               else Inr \<lparr> res_booking = b,
                                          res_originalOrganizer = originalOrganizer,
                                          res_eventType = eventType,
                                          res_eventTypeHosts = eventTypeHosts,
                                          res_fixedHost = fixedHost,
                                          res_currentRRHost = currentRRHost,
                                          res_newUserHost = newUserHost \<rparr>)))))))"

section \<open>Mutating: the Organizer-Change Decision and the write\<close>

definition hasOrganizerChanged_of :: "resolved \<Rightarrow> int \<Rightarrow> bool" where
  "hasOrganizerChanged_of r newUserId =
     (res_fixedHost r = None \<and> booking_userId (res_booking r) \<noteq> Some newUserId)"

text \<open>
  Lines 116 to 126. The test of the \<^verbatim>\<open>if\<close> is
  \<^verbatim>\<open>eventType.locations.includes({ type: OrganizerDefaultConferencingAppType })\<close>: it looks
  the object the literal has just created up in the array.
\<close>

definition bookingLocation_of :: "deps \<Rightarrow> booking \<Rightarrow> eventType \<Rightarrow> user \<Rightarrow> string option" where
  "bookingLocation_of c b eventType newUser =
     (if array_includes (et_locations eventType)
           (object_literal (et_locations eventType)
              \<lparr> location_type = OrganizerDefaultConferencingAppType c, location_link = None \<rparr>)
      then
        (let defaultLocationUrl =
               (case userMetadataSafeParse c (user_metadata newUser) of
                  None \<Rightarrow> None
                | Some m \<Rightarrow> (case defaultConferencingApp m of None \<Rightarrow> None | Some a \<Rightarrow> appLink a));
             currentBookingLocation = or_default (booking_location b) ''integrations:daily''
         in Some (or_default defaultLocationUrl
                    (getLocationValueForDB c currentBookingLocation (et_locations eventType))))
      else booking_location b)"

definition newBookingTitle_of :: "deps \<Rightarrow> booking \<Rightarrow> eventType \<Rightarrow> user \<Rightarrow> string" where
  "newBookingTitle_of c b eventType newUser =
     (let responses = responsesSafeParse c (et_bookingFields eventType) (booking_responses b);
          bookingLocation = bookingLocation_of c b eventType newUser
      in getEventName c
           \<lparr> en_attendeeName =
               or_default (case responses of None \<Rightarrow> None | Some r \<Rightarrow> responses_name r) ''Nameless'',
             en_eventType = et_title eventType,
             en_eventName = et_eventName eventType,
             en_teamName = map_option team_name (et_team eventType),
             en_host = or_default (user_name newUser) ''Nameless'',
             en_location = or_default bookingLocation ''integrations:daily'',
             en_bookingFields = responses,
             en_eventDuration = et_length eventType,
             en_t = getTranslation (or_default (user_locale newUser) ''en'') ''common'' \<rparr>)"

text \<open>
  Lines 107 to 160. The first branch assigns the result of the update to \<^verbatim>\<open>booking\<close>;
  the second awaits the attendee update and leaves \<^verbatim>\<open>booking\<close> as it was loaded.
\<close>

definition mutating ::
  "deps \<Rightarrow> db \<Rightarrow> int \<Rightarrow> int \<Rightarrow> resolved \<Rightarrow> error + (db \<times> effect list \<times> booking)" where
  "mutating c d bookingId newUserId r =
     (let b = res_booking r; newUser = host_user (res_newUserHost r) in
      if hasOrganizerChanged_of r newUserId then
        (let newBookingTitle = newBookingTitle_of c b (res_eventType r) newUser in
         case booking_update d bookingId newUserId newBookingTitle (user_email newUser) of
           Inl e \<Rightarrow> Inl e
         | Inr (d', b') \<Rightarrow>
             Inr (d', [Booking_update bookingId newUserId newBookingTitle (user_email newUser)], b'))
      else case res_currentRRHost r of
        Some currentRRHost \<Rightarrow>
          (case attendee_update d (attendee_id currentRRHost) (or_default (user_name newUser) [])
                  (user_email newUser) (user_timeZone newUser) (user_locale newUser) of
             Inl e \<Rightarrow> Inl e
           | Inr d' \<Rightarrow>
               Inr (d', [Attendee_update (attendee_id currentRRHost) (or_default (user_name newUser) [])
                           (user_email newUser) (user_timeZone newUser) (user_locale newUser)], b))
      | None \<Rightarrow> Inr (d, [], b))"

section \<open>Syncing: the Meeting Materializer\<close>

definition attendeeList_of :: "attendee list \<Rightarrow> person list" where
  "attendeeList_of atts =
     map (\<lambda>a. \<lparr> person_email = attendee_email a,
                person_name = attendee_name a,
                person_timeZone = attendee_timeZone a,
                person_language =
                  \<lparr> language_translate = getTranslation (nullish_default (attendee_locale a) ''en'') ''common'',
                    language_locale = nullish_default (attendee_locale a) ''en'' \<rparr>,
                person_phoneNumber = or_undefined (attendee_phoneNumber a) \<rparr>) atts"

definition organizer_of :: "user \<Rightarrow> person" where
  "organizer_of u =
     \<lparr> person_email = user_email u,
       person_name = or_default (user_name u) [],
       person_timeZone = user_timeZone u,
       person_language =
         \<lparr> language_translate = getTranslation (or_default (user_locale u) ''en'') ''common'',
           language_locale = or_default (user_locale u) ''en'' \<rparr>,
       person_phoneNumber = None \<rparr>"

text \<open>Lines 162 to 216: \<^verbatim>\<open>booking\<close> is the variable as the Mutating step left it.\<close>

definition buildEvt ::
  "deps \<Rightarrow> booking \<Rightarrow> eventType \<Rightarrow> host list \<Rightarrow> user \<Rightarrow> user \<Rightarrow> int \<Rightarrow> bool \<Rightarrow> CalendarEvent" where
  "buildEvt c b eventType eventTypeHosts newUser originalOrganizer newUserId hasOrganizerChanged =
     \<lparr> evt_type = et_slug eventType,
       evt_title = booking_title b,
       evt_description = et_description eventType,
       evt_startTime = utcFormat c (booking_startTime b),
       evt_endTime = utcFormat c (booking_endTime b),
       evt_organizer = organizer_of newUser,
       evt_attendees = attendeeList_of (booking_attendees b),
       evt_uid = booking_uid b,
       evt_destinationCalendar = getDestinationCalendar c eventType b newUserId hasOrganizerChanged,
       evt_team =
         \<lparr> cteam_members =
             getTeamMembers c eventTypeHosts (booking_attendees b) newUser originalOrganizer newUser,
           cteam_name = (case et_team eventType of None \<Rightarrow> [] | Some t \<Rightarrow> team_name t),
           cteam_id = (case et_team eventType of None \<Rightarrow> 0 | Some t \<Rightarrow> team_id t) \<rparr>,
       evt_customInputs = isPrismaObjOrUndefined c (booking_customInputs b),
       evt_calEventResponses = getCalEventResponses c (et_bookingFields eventType) b,
       evt_cancellationReason = ''Manually re-assigned'' \<rparr>"

definition recipient_of :: "deps \<Rightarrow> user \<Rightarrow> recipient" where
  "recipient_of c u =
     \<lparr> recipient_user = u,
       recipient_name = or_default (user_name u) [],
       recipient_username = or_default (user_username u) [],
       recipient_timeFormat = getTimeFormatStringFromUserTimeFormat c (user_timeFormat u),
       recipient_language =
         \<lparr> language_translate = getTranslation (or_default (user_locale u) ''en'') ''common'',
           language_locale = or_default (user_locale u) ''en'' \<rparr> \<rparr>"

text \<open>
  The event with its organizer replaced by the literal of lines 258 to 263, as a value.
  The orchestrator does not compute the cancelled event this way: it runs lines 257 to 263
  on the object store further down.
\<close>

definition cancelledEvt_of :: "CalendarEvent \<Rightarrow> user \<Rightarrow> CalendarEvent" where
  "cancelledEvt_of evt originalOrganizer = evt\<lparr> evt_organizer := organizer_of originalOrganizer \<rparr>"

section \<open>Workflow Migration\<close>

text \<open>
  The \<^verbatim>\<open>where\<close> of \<^verbatim>\<open>prisma.workflowReminder.findMany\<close> at lines 310 to 326: a filter on
  a relation matches only the rows that have the related row.
\<close>

definition pendingHostEmailReminder :: "string \<Rightarrow> workflowReminder \<Rightarrow> bool" where
  "pendingHostEmailReminder uid rm =
     (reminder_bookingUid rm = Some uid \<and> reminder_method rm = EMAIL \<and>
      (case reminder_workflowStep rm of
         None \<Rightarrow> False
       | Some st \<Rightarrow>
           step_action st = EMAIL_HOST \<and>
           (case step_workflow st of
              None \<Rightarrow> False
            | Some w \<Rightarrow> wf_trigger w = BEFORE_EVENT \<or> wf_trigger w = NEW_EVENT \<or> wf_trigger w = AFTER_EVENT)))"

definition workflowReminder_findMany :: "db \<Rightarrow> string \<Rightarrow> workflowReminder list" where
  "workflowReminder_findMany d uid = filter (pendingHostEmailReminder uid) (workflowReminders d)"

text \<open>
  The argument of \<^verbatim>\<open>scheduleEmailReminder\<close> at lines 353 to 368: the replacement for a
  reminder whose step and workflow are loaded.
\<close>

definition replacementFor ::
  "CalendarEvent \<Rightarrow> string option \<Rightarrow> eventType \<Rightarrow> string \<Rightarrow> user \<Rightarrow> workflowStep_row \<Rightarrow> workflow_sel
    \<Rightarrow> emailReminderArgs" where
  "replacementFor evt videoCallUrl eventType bookerUrl newUser workflowStep workflow =
     \<lparr> era_evt = evt,
       era_videoCallUrl = videoCallUrl,
       era_eventType = eventType,
       era_bookerUrl = bookerUrl,
       era_action = EMAIL_HOST,
       era_triggerEvent = wf_trigger workflow,
       era_time = wf_time workflow,
       era_timeUnit = wf_timeUnit workflow,
       era_sendTo = user_email newUser,
       era_template = step_template workflowStep \<rparr>"

text \<open>The body of the \<^verbatim>\<open>for\<close> loop at lines 348 to 372, one reminder after the other.\<close>

fun migrateReminders ::
  "CalendarEvent \<Rightarrow> string option \<Rightarrow> eventType \<Rightarrow> string \<Rightarrow> user \<Rightarrow> workflowReminder list
    \<Rightarrow> effect list" where
  "migrateReminders evt videoCallUrl eventType bookerUrl newUser [] = []"
| "migrateReminders evt videoCallUrl eventType bookerUrl newUser (workflowReminder # rest) =
     (case reminder_workflowStep workflowReminder of
        None \<Rightarrow> []
      | Some workflowStep \<Rightarrow>
          (case step_workflow workflowStep of
             None \<Rightarrow> []
           | Some workflow \<Rightarrow>
               [ScheduleEmailReminder
                  (replacementFor evt videoCallUrl eventType bookerUrl newUser workflowStep
                     workflow)]))
     @ DeleteScheduledEmailReminder (reminder_id workflowReminder) (reminder_referenceId workflowReminder)
     # migrateReminders evt videoCallUrl eventType bookerUrl newUser rest"

text \<open>
  The \<^verbatim>\<open>where\<close> and \<^verbatim>\<open>include\<close> of \<^verbatim>\<open>prisma.workflow.findMany\<close> at lines 375 to 418.
  The last two alternatives of the \<^verbatim>\<open>OR\<close> are present only for a truthy team id.
\<close>

definition newEventWorkflow :: "eventType \<Rightarrow> workflow \<Rightarrow> bool" where
  "newEventWorkflow eventType w =
     (workflow_trigger w = NEW_EVENT \<and>
      ((workflow_isActiveOnAll w \<and> workflow_teamId w = et_teamId eventType) \<or>
       et_id eventType \<in> set (workflow_activeOn w) \<or>
       (truthy_number (et_teamId eventType) \<and>
          (case et_teamId eventType of None \<Rightarrow> False | Some t \<Rightarrow> t \<in> set (workflow_activeOnTeams w))) \<or>
       (case et_team eventType of
          None \<Rightarrow> False
        | Some t \<Rightarrow> truthy_number (team_parentId t) \<and> workflow_isActiveOnAll w \<and>
                   workflow_teamId w = team_parentId t)))"

definition workflow_findMany :: "db \<Rightarrow> eventType \<Rightarrow> workflow list" where
  "workflow_findMany d eventType =
     map (\<lambda>w. w\<lparr> workflow_steps := filter (\<lambda>st. step_action st = EMAIL_HOST) (workflow_steps w) \<rparr>)
       (filter (newEventWorkflow eventType) (workflows d))"

definition handleWorkflowsUpdate ::
  "deps \<Rightarrow> db \<Rightarrow> booking \<Rightarrow> user \<Rightarrow> CalendarEvent \<Rightarrow> eventType \<Rightarrow> int option \<Rightarrow> effect list" where
  "handleWorkflowsUpdate c d b newUser evt eventType orgId =
     (let workflowReminders = workflowReminder_findMany d (booking_uid b);
          videoCallUrl = getVideoCallUrlFromCalEvent c evt;
          bookerUrl = getBookerBaseUrl c orgId;
          newEventWorkflows = workflow_findMany d eventType
      in migrateReminders evt videoCallUrl eventType bookerUrl newUser workflowReminders
         @ [ScheduleWorkflowReminders
              \<lparr> wra_workflows = newEventWorkflows,
                wra_calendarEvent = evt,
                wra_videoCallUrl = videoCallUrl,
                wra_eventTypeSlug = et_slug eventType,
                wra_bookerUrl = bookerUrl,
                wra_hideBranding = (et_ownerHideBranding eventType = Some True) \<rparr>])"

section \<open>The object store\<close>

text \<open>
  Lines 257 to 263 copy \<^verbatim>\<open>evt\<close> with lodash's \<^verbatim>\<open>cloneDeep\<close> and assign to the copy's
  \<^verbatim>\<open>organizer\<close> property. Which objects the copy shares with \<^verbatim>\<open>evt\<close> decides whether a
  write through one can reach the other, so here objects live in a store: a cell per
  object. A plain object's cell holds its properties in order, a property's value being a
  primitive or the address of another cell; an array is an object whose keys are indices.
  A function's cell holds the function: the translators are function objects. The opaque
  JSON payloads are primitives.
\<close>

datatype prim = PStr string | PNum int | PNull | PUndefined

datatype key = Prop string | Idx nat

datatype jsval = JS_prim prim | JS_ref nat

datatype cell = Object "(key \<times> jsval) list" | Function translator

type_synonym store = "cell list"

text \<open>The value an expression denotes once every reference is followed.\<close>

datatype tree = TPrim prim | TFun translator | TObj "(key \<times> tree) list"

text \<open>
  Following references from a value, at most \<open>n\<close> objects deep. An address outside the
  store, or an object deeper than the fuel, gives nothing.
\<close>

fun read :: "nat \<Rightarrow> store \<Rightarrow> jsval \<Rightarrow> tree option" where
  "read n h (JS_prim p) = Some (TPrim p)"
| "read 0 h (JS_ref a) = None"
| "read (Suc n) h (JS_ref a) =
     (if a < length h
      then (case h ! a of
              Function f \<Rightarrow> Some (TFun f)
            | Object kvs \<Rightarrow>
                map_option TObj (those (map (\<lambda>(k, v). map_option (Pair k) (read n h v)) kvs)))
      else None)"

text \<open>How many objects deep a value is: the fuel that reads it.\<close>

function height :: "tree \<Rightarrow> nat" and height_fields :: "(key \<times> tree) list \<Rightarrow> nat" where
  "height (TPrim p) = 0"
| "height (TFun f) = 1"
| "height (TObj fs) = Suc (height_fields fs)"
| "height_fields [] = 0"
| "height_fields ((k, t) # fs) = max (height t) (height_fields fs)"
  by pat_completeness auto
termination
  by (relation "measure (\<lambda>x. case x of Inl t \<Rightarrow> size t
                              | Inr fs \<Rightarrow> size_list (size_prod (\<lambda>k. 0) size) fs)")
     auto

text \<open>
  Creating the objects of a value: every object and every function of the tree gets a
  new cell at the end of the store, the properties' objects before the object itself.
\<close>

function alloc :: "tree \<Rightarrow> store \<Rightarrow> jsval \<times> store"
  and alloc_fields :: "(key \<times> tree) list \<Rightarrow> store \<Rightarrow> (key \<times> jsval) list \<times> store" where
  "alloc (TPrim p) h = (JS_prim p, h)"
| "alloc (TFun f) h = (JS_ref (length h), h @ [Function f])"
| "alloc (TObj fs) h = (case alloc_fields fs h of (kvs, h') \<Rightarrow> (JS_ref (length h'), h' @ [Object kvs]))"
| "alloc_fields [] h = ([], h)"
| "alloc_fields ((k, t) # fs) h =
     (case alloc t h of (v, h1) \<Rightarrow>
        (case alloc_fields fs h1 of (kvs, h2) \<Rightarrow> ((k, v) # kvs, h2)))"
  by pat_completeness auto
termination
  by (relation "measure (\<lambda>x. case x of Inl (t, h) \<Rightarrow> size t
                              | Inr (fs, h) \<Rightarrow> size_list (size_prod (\<lambda>k. 0) size) fs)")
     auto

text \<open>
  Modelled from the spec: \<^verbatim>\<open>cloneDeep\<close> is lodash's, imported at line 2, and lodash is a
  library that is not among the source files. The spec has line 257 make "a deep copy of
  the event representation". The definition is that copy as lodash's \<^verbatim>\<open>baseClone\<close> makes it
  for the values that occur here. A primitive is returned as it is. A plain object or an
  array gets a new object, whose properties are the clones of the original's properties,
  in order. A function that is the value of a property is not cloneable and is returned as
  it is, by reference: the clone's property refers to the same function object as the
  original's. A function passed to \<^verbatim>\<open>cloneDeep\<close> itself gives a new empty object. The fuel
  bounds how deep the value may be.
\<close>

fun clone :: "nat \<Rightarrow> store \<Rightarrow> jsval \<Rightarrow> (jsval \<times> store) option"
  and clone_fields :: "nat \<Rightarrow> store \<Rightarrow> (key \<times> jsval) list \<Rightarrow> ((key \<times> jsval) list \<times> store) option" where
  "clone n h (JS_prim p) = Some (JS_prim p, h)"
| "clone 0 h (JS_ref a) = None"
| "clone (Suc n) h (JS_ref a) =
     (if a < length h
      then (case h ! a of
              Function f \<Rightarrow> Some (JS_ref a, h)
            | Object kvs \<Rightarrow>
                (case clone_fields n h kvs of
                   None \<Rightarrow> None
                 | Some (kvs', h') \<Rightarrow> Some (JS_ref (length h'), h' @ [Object kvs'])))
      else None)"
| "clone_fields n h [] = Some ([], h)"
| "clone_fields n h ((k, v) # kvs) =
     (case clone n h v of
        None \<Rightarrow> None
      | Some (v', h1) \<Rightarrow>
          (case clone_fields n h1 kvs of
             None \<Rightarrow> None
           | Some (kvs', h2) \<Rightarrow> Some ((k, v') # kvs', h2)))"

definition isFunction :: "cell \<Rightarrow> bool" where
  "isFunction c = (case c of Function f \<Rightarrow> True | Object kvs \<Rightarrow> False)"

definition cloneDeep :: "nat \<Rightarrow> store \<Rightarrow> jsval \<Rightarrow> (jsval \<times> store) option" where
  "cloneDeep n h v =
     (case v of
        JS_prim p \<Rightarrow> clone n h v
      | JS_ref a \<Rightarrow>
          if a < length h \<and> isFunction (h ! a) then Some (JS_ref (length h), h @ [Object []])
          else clone n h v)"

text \<open>\<^verbatim>\<open>object.key = value\<close>: on the properties of an object, and on a cell of the store.\<close>

fun setProp :: "(key \<times> 'a) list \<Rightarrow> key \<Rightarrow> 'a \<Rightarrow> (key \<times> 'a) list" where
  "setProp [] k v = [(k, v)]"
| "setProp ((k', v') # kvs) k v = (if k' = k then (k, v) # kvs else (k', v') # setProp kvs k v)"

definition assignProp :: "store \<Rightarrow> jsval \<Rightarrow> key \<Rightarrow> jsval \<Rightarrow> store option" where
  "assignProp h obj k v =
     (case obj of
        JS_prim p \<Rightarrow> None
      | JS_ref a \<Rightarrow>
          if a < length h
          then (case h ! a of
                  Function f \<Rightarrow> None
                | Object kvs \<Rightarrow> Some (h[a := Object (setProp kvs k v)]))
          else None)"

text \<open>
  The object literal of lines 258 to 263. \<^verbatim>\<open>originalOrganizerT\<close> is the function that
  line 105 obtained; the literal refers to it.
\<close>

definition organizerLiteral :: "store \<Rightarrow> user \<Rightarrow> jsval \<Rightarrow> jsval \<times> store" where
  "organizerLiteral h originalOrganizer originalOrganizerT =
     (JS_ref (Suc (length h)),
      h @ [Object [(Prop ''translate'', originalOrganizerT),
                   (Prop ''locale'', JS_prim (PStr (or_default (user_locale originalOrganizer) ''en'')))],
           Object [(Prop ''email'', JS_prim (PStr (user_email originalOrganizer))),
                   (Prop ''name'', JS_prim (PStr (or_default (user_name originalOrganizer) []))),
                   (Prop ''timeZone'', JS_prim (PStr (user_timeZone originalOrganizer))),
                   (Prop ''language'', JS_ref (length h))]])"

text \<open>
  Lines 257 to 263 on the store: the copy, the object literal, and the assignment to the
  copy's property. The result is the address of \<^verbatim>\<open>cancelledEvt\<close> and the store after the
  three steps.
\<close>

definition buildCancelledEvt ::
  "nat \<Rightarrow> store \<Rightarrow> jsval \<Rightarrow> user \<Rightarrow> jsval \<Rightarrow> (jsval \<times> store) option" where
  "buildCancelledEvt n h evt originalOrganizer originalOrganizerT =
     (case cloneDeep n h evt of
        None \<Rightarrow> None
      | Some (cancelledEvt, h1) \<Rightarrow>
          (case organizerLiteral h1 originalOrganizer originalOrganizerT of
             (organizer, h2) \<Rightarrow>
               map_option (Pair cancelledEvt) (assignProp h2 cancelledEvt (Prop ''organizer'') organizer)))"

text \<open>
  Two stores that differ at most in cells at or beyond a boundary; and two stores that
  differ at most in the plain objects below it.
\<close>

definition agreeBelow :: "nat \<Rightarrow> store \<Rightarrow> store \<Rightarrow> bool" where
  "agreeBelow m h h' = (m \<le> length h \<and> m \<le> length h' \<and> take m h = take m h')"

definition sameFunctions :: "store \<Rightarrow> store \<Rightarrow> bool" where
  "sameFunctions h h' = list_all2 (\<lambda>x y. isFunction x \<longrightarrow> y = x) h h'"

definition agreeButOldObjects :: "nat \<Rightarrow> store \<Rightarrow> store \<Rightarrow> bool" where
  "agreeButOldObjects m h h' =
     (length h = length h' \<and> drop m h = drop m h' \<and> sameFunctions (take m h) (take m h'))"


text \<open>The properties of a cell read as the properties of a tree.\<close>

abbreviation readFields :: "nat \<Rightarrow> store \<Rightarrow> (key \<times> jsval) list \<Rightarrow> (key \<times> tree) list \<Rightarrow> bool" where
  "readFields n h kvs fs \<equiv>
     list_all2 (\<lambda>kv kt. fst kv = fst kt \<and> read n h (snd kv) = Some (snd kt)) kvs fs"

section \<open>The calendar event in the store\<close>

text \<open>
  The calendar event as the value its object denotes. The organizer literals of lines 196
  to 201 and 258 to 263 have no \<^verbatim>\<open>phoneNumber\<close> property; an attendee's literal has one,
  possibly \<^verbatim>\<open>undefined\<close>. A JSON payload is an object of the store; its content is the
  text that stands for the payload everywhere else.
\<close>

definition treeOfArray :: "tree list \<Rightarrow> tree" where
  "treeOfArray ts = TObj (map (\<lambda>(i, t). (Idx i, t)) (enumerate 0 ts))"

definition treeOfLanguage :: "language \<Rightarrow> tree" where
  "treeOfLanguage l =
     TObj [(Prop ''translate'', TFun (language_translate l)),
           (Prop ''locale'', TPrim (PStr (language_locale l)))]"

definition treeOfJson :: "json \<Rightarrow> tree" where
  "treeOfJson j = TObj [(Prop ''json'', TPrim (PStr j))]"

definition treeOfOptional :: "string option \<Rightarrow> tree" where
  "treeOfOptional x = (case x of None \<Rightarrow> TPrim PUndefined | Some s \<Rightarrow> TPrim (PStr s))"

definition treeOfOrganizer :: "person \<Rightarrow> tree" where
  "treeOfOrganizer p =
     TObj ([(Prop ''email'', TPrim (PStr (person_email p))),
            (Prop ''name'', TPrim (PStr (person_name p))),
            (Prop ''timeZone'', TPrim (PStr (person_timeZone p))),
            (Prop ''language'', treeOfLanguage (person_language p))]
           @ (case person_phoneNumber p of
                None \<Rightarrow> []
              | Some s \<Rightarrow> [(Prop ''phoneNumber'', TPrim (PStr s))]))"

definition treeOfAttendee :: "person \<Rightarrow> tree" where
  "treeOfAttendee p =
     TObj [(Prop ''email'', TPrim (PStr (person_email p))),
           (Prop ''name'', TPrim (PStr (person_name p))),
           (Prop ''timeZone'', TPrim (PStr (person_timeZone p))),
           (Prop ''language'', treeOfLanguage (person_language p)),
           (Prop ''phoneNumber'', treeOfOptional (person_phoneNumber p))]"

definition treeOfDestinationCalendar :: "destinationCalendar \<Rightarrow> tree" where
  "treeOfDestinationCalendar dc =
     TObj [(Prop ''id'', TPrim (PNum (dc_id dc))),
           (Prop ''userId'', (case dc_userId dc of None \<Rightarrow> TPrim PNull | Some u \<Rightarrow> TPrim (PNum u))),
           (Prop ''integration'', TPrim (PStr (dc_integration dc))),
           (Prop ''externalId'', TPrim (PStr (dc_externalId dc)))]"

definition treeOfTeam :: "calendar_team \<Rightarrow> tree" where
  "treeOfTeam t =
     TObj [(Prop ''members'', treeOfArray (map treeOfAttendee (cteam_members t))),
           (Prop ''name'', TPrim (PStr (cteam_name t))),
           (Prop ''id'', TPrim (PNum (cteam_id t)))]"

definition treeOfEvt :: "CalendarEvent \<Rightarrow> tree" where
  "treeOfEvt evt =
     TObj [(Prop ''type'', TPrim (PStr (evt_type evt))),
           (Prop ''title'', TPrim (PStr (evt_title evt))),
           (Prop ''description'',
              (case evt_description evt of None \<Rightarrow> TPrim PNull | Some s \<Rightarrow> TPrim (PStr s))),
           (Prop ''startTime'', TPrim (PStr (evt_startTime evt))),
           (Prop ''endTime'', TPrim (PStr (evt_endTime evt))),
           (Prop ''organizer'', treeOfOrganizer (evt_organizer evt)),
           (Prop ''attendees'', treeOfArray (map treeOfAttendee (evt_attendees evt))),
           (Prop ''uid'', TPrim (PStr (evt_uid evt))),
           (Prop ''destinationCalendar'',
              (case evt_destinationCalendar evt of
                 None \<Rightarrow> TPrim PUndefined
               | Some dcs \<Rightarrow> treeOfArray (map treeOfDestinationCalendar dcs))),
           (Prop ''team'', treeOfTeam (evt_team evt)),
           (Prop ''customInputs'',
              (case evt_customInputs evt of None \<Rightarrow> TPrim PUndefined | Some j \<Rightarrow> treeOfJson j)),
           (Prop ''responses'', treeOfJson (evt_calEventResponses evt)),
           (Prop ''cancellationReason'', TPrim (PStr (evt_cancellationReason evt)))]"

text \<open>
  Reading a calendar event off the value of an object: what a function that is handed the
  object sees in it.
\<close>

fun stringOf :: "tree \<Rightarrow> string option" where
  "stringOf (TPrim (PStr s)) = Some s"
| "stringOf t = None"

fun numberOf :: "tree \<Rightarrow> int option" where
  "numberOf (TPrim (PNum i)) = Some i"
| "numberOf t = None"

fun functionOf :: "tree \<Rightarrow> translator option" where
  "functionOf (TFun f) = Some f"
| "functionOf t = None"

fun optionalStringOf :: "tree \<Rightarrow> string option option" where
  "optionalStringOf (TPrim PUndefined) = Some None"
| "optionalStringOf (TPrim (PStr s)) = Some (Some s)"
| "optionalStringOf t = None"

fun nullableStringOf :: "tree \<Rightarrow> string option option" where
  "nullableStringOf (TPrim PNull) = Some None"
| "nullableStringOf (TPrim (PStr s)) = Some (Some s)"
| "nullableStringOf t = None"

fun nullableNumberOf :: "tree \<Rightarrow> int option option" where
  "nullableNumberOf (TPrim PNull) = Some None"
| "nullableNumberOf (TPrim (PNum i)) = Some (Some i)"
| "nullableNumberOf t = None"

fun propertiesOf :: "tree \<Rightarrow> (key \<times> tree) list option" where
  "propertiesOf (TObj fs) = Some fs"
| "propertiesOf t = None"

definition property :: "(key \<times> tree) list \<Rightarrow> string \<Rightarrow> tree option" where
  "property fs name = map_of fs (Prop name)"

definition arrayOf :: "(tree \<Rightarrow> 'a option) \<Rightarrow> tree \<Rightarrow> 'a list option" where
  "arrayOf element t =
     (case propertiesOf t of None \<Rightarrow> None | Some fs \<Rightarrow> those (map (element \<circ> snd) fs))"

definition optionalArrayOf :: "(tree \<Rightarrow> 'a option) \<Rightarrow> tree \<Rightarrow> 'a list option option" where
  "optionalArrayOf element t =
     (if t = TPrim PUndefined then Some None else map_option Some (arrayOf element t))"

definition jsonOfTree :: "tree \<Rightarrow> json option" where
  "jsonOfTree t = propertiesOf t \<bind> (\<lambda>fs. property fs ''json'' \<bind> stringOf)"

definition optionalJsonOf :: "tree \<Rightarrow> json option option" where
  "optionalJsonOf t = (if t = TPrim PUndefined then Some None else map_option Some (jsonOfTree t))"

definition languageOfTree :: "tree \<Rightarrow> language option" where
  "languageOfTree t =
     do {
       fs \<leftarrow> propertiesOf t;
       translate \<leftarrow> property fs ''translate'' \<bind> functionOf;
       locale \<leftarrow> property fs ''locale'' \<bind> stringOf;
       Some \<lparr> language_translate = translate, language_locale = locale \<rparr>
     }"

definition personOfTree :: "tree \<Rightarrow> person option" where
  "personOfTree t =
     do {
       fs \<leftarrow> propertiesOf t;
       email \<leftarrow> property fs ''email'' \<bind> stringOf;
       name \<leftarrow> property fs ''name'' \<bind> stringOf;
       timeZone \<leftarrow> property fs ''timeZone'' \<bind> stringOf;
       language \<leftarrow> property fs ''language'' \<bind> languageOfTree;
       phoneNumber \<leftarrow> (case property fs ''phoneNumber'' of
                         None \<Rightarrow> Some None
                       | Some p \<Rightarrow> optionalStringOf p);
       Some \<lparr> person_email = email, person_name = name, person_timeZone = timeZone,
              person_language = language, person_phoneNumber = phoneNumber \<rparr>
     }"

definition destinationCalendarOfTree :: "tree \<Rightarrow> destinationCalendar option" where
  "destinationCalendarOfTree t =
     do {
       fs \<leftarrow> propertiesOf t;
       i \<leftarrow> property fs ''id'' \<bind> numberOf;
       userId \<leftarrow> property fs ''userId'' \<bind> nullableNumberOf;
       integration \<leftarrow> property fs ''integration'' \<bind> stringOf;
       externalId \<leftarrow> property fs ''externalId'' \<bind> stringOf;
       Some \<lparr> dc_id = i, dc_userId = userId, dc_integration = integration,
              dc_externalId = externalId \<rparr>
     }"

definition teamOfTree :: "tree \<Rightarrow> calendar_team option" where
  "teamOfTree t =
     do {
       fs \<leftarrow> propertiesOf t;
       members \<leftarrow> property fs ''members'' \<bind> arrayOf personOfTree;
       name \<leftarrow> property fs ''name'' \<bind> stringOf;
       i \<leftarrow> property fs ''id'' \<bind> numberOf;
       Some \<lparr> cteam_members = members, cteam_name = name, cteam_id = i \<rparr>
     }"

definition evtOfTree :: "tree \<Rightarrow> CalendarEvent option" where
  "evtOfTree t =
     do {
       fs \<leftarrow> propertiesOf t;
       type \<leftarrow> property fs ''type'' \<bind> stringOf;
       title \<leftarrow> property fs ''title'' \<bind> stringOf;
       description \<leftarrow> property fs ''description'' \<bind> nullableStringOf;
       startTime \<leftarrow> property fs ''startTime'' \<bind> stringOf;
       endTime \<leftarrow> property fs ''endTime'' \<bind> stringOf;
       organizer \<leftarrow> property fs ''organizer'' \<bind> personOfTree;
       attendees \<leftarrow> property fs ''attendees'' \<bind> arrayOf personOfTree;
       uid \<leftarrow> property fs ''uid'' \<bind> stringOf;
       destinationCalendar \<leftarrow>
         property fs ''destinationCalendar'' \<bind> optionalArrayOf destinationCalendarOfTree;
       team \<leftarrow> property fs ''team'' \<bind> teamOfTree;
       customInputs \<leftarrow> property fs ''customInputs'' \<bind> optionalJsonOf;
       responses \<leftarrow> property fs ''responses'' \<bind> jsonOfTree;
       cancellationReason \<leftarrow> property fs ''cancellationReason'' \<bind> stringOf;
       Some \<lparr> evt_type = type, evt_title = title, evt_description = description,
              evt_startTime = startTime, evt_endTime = endTime, evt_organizer = organizer,
              evt_attendees = attendees, evt_uid = uid,
              evt_destinationCalendar = destinationCalendar, evt_team = team,
              evt_customInputs = customInputs, evt_calEventResponses = responses,
              evt_cancellationReason = cancellationReason \<rparr>
     }"

text \<open>
  The objects as lines 105 and 177 to 216 have created them: the function
  \<^verbatim>\<open>originalOrganizerT\<close>, then the event, with every object, array and translator in it an
  object of its own. The result is the address of \<^verbatim>\<open>evt\<close>, the address of
  \<^verbatim>\<open>originalOrganizerT\<close> and the store.
\<close>

definition layoutEvt :: "CalendarEvent \<Rightarrow> user \<Rightarrow> jsval \<times> jsval \<times> store" where
  "layoutEvt evt originalOrganizer =
     (case alloc (TFun (getTranslation (or_default (user_locale originalOrganizer) ''en'') ''common'')) [] of
        (originalOrganizerT, h1) \<Rightarrow>
          (case alloc (treeOfEvt evt) h1 of (evtRef, h2) \<Rightarrow> (evtRef, originalOrganizerT, h2)))"

text \<open>Fuel that reads the event and the organizer literal.\<close>

definition evtFuel :: "CalendarEvent \<Rightarrow> nat" where
  "evtFuel evt = max 4 (height (treeOfEvt evt))"

text \<open>
  Lines 257 to 263 for an event: the objects are laid out, the copy is made and its
  organizer assigned. The result is the address of \<^verbatim>\<open>evt\<close>, the address of \<^verbatim>\<open>cancelledEvt\<close>
  and the store after line 263.
\<close>

definition cancellationObjects :: "CalendarEvent \<Rightarrow> user \<Rightarrow> (jsval \<times> jsval \<times> store) option" where
  "cancellationObjects evt originalOrganizer =
     (case layoutEvt evt originalOrganizer of
        (evtRef, originalOrganizerT, h) \<Rightarrow>
          (case buildCancelledEvt (evtFuel evt) h evtRef originalOrganizer originalOrganizerT of
             None \<Rightarrow> None
           | Some (cancelledRef, h') \<Rightarrow> Some (evtRef, cancelledRef, h')))"

text \<open>
  What the callees of lines 265 to 290 are handed: the cancelled event as the object at
  \<^verbatim>\<open>cancelledEvt\<close> reads after line 263, and the event as the object at \<^verbatim>\<open>evt\<close> reads then.
\<close>

definition cancellationOnStore :: "CalendarEvent \<Rightarrow> user \<Rightarrow> (CalendarEvent \<times> CalendarEvent) option" where
  "cancellationOnStore evt originalOrganizer =
     (case cancellationObjects evt originalOrganizer of
        None \<Rightarrow> None
      | Some (evtRef, cancelledRef, h') \<Rightarrow>
          do {
            cancelledEvt \<leftarrow> read (evtFuel evt) h' cancelledRef \<bind> evtOfTree;
            evt' \<leftarrow> read (evtFuel evt) h' evtRef \<bind> evtOfTree;
            Some (cancelledEvt, evt')
          })"

section \<open>The Reassignment Orchestrator\<close>

text \<open>
  Lines 218 to 290, after the Mutating step: sync, reference replacement, the two
  notifications and, when the organizer changed, the workflow migration. The cancelled
  notification is handed what the object at \<^verbatim>\<open>cancelledEvt\<close> reads as after lines 257 to 263
  have run on the store, and the workflow migration what the object at \<^verbatim>\<open>evt\<close> reads as
  then. Copying and assigning cannot fail in JavaScript; on the store they give nothing
  when the fuel is too small or an address dangles, and the call then ends with an error
  of its own.
\<close>

definition afterMutation ::
  "deps \<Rightarrow> int \<Rightarrow> int \<Rightarrow> int option \<Rightarrow> resolved \<Rightarrow> db \<Rightarrow> effect list \<Rightarrow> booking \<Rightarrow> outcome" where
  "afterMutation c bookingId newUserId orgId r d written b =
     (let eventType = res_eventType r;
          newUser = host_user (res_newUserHost r);
          originalOrganizer = res_originalOrganizer r;
          hasOrganizerChanged = hasOrganizerChanged_of r newUserId;
          evt = buildEvt c b eventType (res_eventTypeHosts r) newUser originalOrganizer newUserId
                  hasOrganizerChanged;
          credentials = credential_findMany d (user_id newUser);
          previousHostDestinationCalendar =
            (if hasOrganizerChanged then destinationCalendar_findFirst d (user_id originalOrganizer)
             else None);
          removeFrom = (case previousHostDestinationCalendar of None \<Rightarrow> [] | Some dc \<Rightarrow> [dc]);
          referencesToCreate =
            reschedule c newUser credentials evt (booking_uid b) hasOrganizerChanged removeFrom;
          newReferencesToCreate = referencesToCreate;
          d' = replaceBookingReferences d bookingId newReferencesToCreate;
          sent =
            written
            @ [EventManager_reschedule newUser credentials evt (booking_uid b) hasOrganizerChanged
                 removeFrom,
               ReplaceBookingReferences bookingId newReferencesToCreate,
               SendRoundRobinScheduledEmailsAndSMS evt [recipient_of c newUser]]
      in (case cancellationOnStore evt originalOrganizer of
            None \<Rightarrow>
              \<lparr> out_db = d', out_effects = sent, out_result = Inl (Error ''object_store'') \<rparr>
          | Some (cancelledEvt, evt') \<Rightarrow>
              \<lparr> out_db = d',
                out_effects =
                  sent
                  @ [SendRoundRobinCancelledEmailsAndSMS cancelledEvt
                       [recipient_of c originalOrganizer] (et_metadata eventType)]
                  @ (if hasOrganizerChanged
                     then handleWorkflowsUpdate c d' b newUser evt' eventType orgId else []),
                out_result = Inr b \<rparr>))"

definition roundRobinManualReassignment :: "deps \<Rightarrow> db \<Rightarrow> int \<Rightarrow> int \<Rightarrow> int option \<Rightarrow> outcome" where
  "roundRobinManualReassignment c d bookingId newUserId orgId =
     (case validating d bookingId newUserId of
        Inl e \<Rightarrow> \<lparr> out_db = d, out_effects = [], out_result = Inl e \<rparr>
      | Inr r \<Rightarrow>
         (case mutating c d bookingId newUserId r of
            Inl e \<Rightarrow> \<lparr> out_db = d, out_effects = [], out_result = Inl e \<rparr>
          | Inr (d', written, b) \<Rightarrow> afterMutation c bookingId newUserId orgId r d' written b))"

section \<open>Reading an outcome\<close>

text \<open>The meeting as storage holds it.\<close>

definition storedBooking :: "db \<Rightarrow> int \<Rightarrow> booking option" where
  "storedBooking d bookingId = booking_findUnique d bookingId"

text \<open>What the calendar sync returned, for an effect that is a call of it.\<close>

fun rescheduleResult :: "deps \<Rightarrow> effect \<Rightarrow> reference list option" where
  "rescheduleResult c (EventManager_reschedule u creds evt uid changed removeFrom) =
     Some (reschedule c u creds evt uid changed removeFrom)"
| "rescheduleResult c other = None"

fun rescheduledEvent :: "effect \<Rightarrow> CalendarEvent option" where
  "rescheduledEvent (EventManager_reschedule u creds evt uid changed removeFrom) = Some evt"
| "rescheduledEvent other = None"

fun isStorageWrite :: "effect \<Rightarrow> bool" where
  "isStorageWrite (Booking_update bid u t e) = True"
| "isStorageWrite (Attendee_update aid n e tz l) = True"
| "isStorageWrite (ReplaceBookingReferences bid refs) = True"
| "isStorageWrite other = False"

fun isWorkflowEffect :: "effect \<Rightarrow> bool" where
  "isWorkflowEffect (ScheduleEmailReminder a) = True"
| "isWorkflowEffect (DeleteScheduledEmailReminder i r) = True"
| "isWorkflowEffect (ScheduleWorkflowReminders a) = True"
| "isWorkflowEffect other = False"

text \<open>The trigger of the workflow that owns a reminder.\<close>

definition reminderTrigger :: "workflowReminder \<Rightarrow> WorkflowTriggerEvents option" where
  "reminderTrigger rm =
     (case reminder_workflowStep rm of
        None \<Rightarrow> None
      | Some st \<Rightarrow> map_option wf_trigger (step_workflow st))"

text \<open>
  Modelled from the spec: \<^verbatim>\<open>scheduleEmailReminder\<close> and \<^verbatim>\<open>deleteScheduledEmailReminder\<close>
  are not among the source files. The spec has the first "schedule a replacement email
  reminder addressed to the new organizer" and the second "cancel (delete) the original
  reminder job": the scheduler holds the pending original reminders and the replacements
  scheduled so far, a schedule call adds a replacement and a delete call removes the
  reminder with the id.
\<close>

record scheduler =
  sched_pending :: "workflowReminder list"
  sched_scheduled :: "emailReminderArgs list"

fun applyToScheduler :: "scheduler \<Rightarrow> effect \<Rightarrow> scheduler" where
  "applyToScheduler s (ScheduleEmailReminder a) = s\<lparr> sched_scheduled := sched_scheduled s @ [a] \<rparr>"
| "applyToScheduler s (DeleteScheduledEmailReminder i r) =
     s\<lparr> sched_pending := filter (\<lambda>rm. reminder_id rm \<noteq> i) (sched_pending s) \<rparr>"
| "applyToScheduler s other = s"

text \<open>
  The scheduler holds a reminder for a trigger and the new organizer: an original still
  pending, or a replacement addressed to the new organizer.
\<close>

definition hasReminderFor :: "scheduler \<Rightarrow> string \<Rightarrow> WorkflowTriggerEvents \<Rightarrow> bool" where
  "hasReminderFor s sendTo t =
     (list_ex (\<lambda>rm. reminderTrigger rm = Some t) (sched_pending s) \<or>
      list_ex (\<lambda>a. era_triggerEvent a = t \<and> era_sendTo a = sendTo) (sched_scheduled s))"


section \<open>Concrete data\<close>

text \<open>
  One storage with two bookings. Booking 100 is on event type 10, which has the Fixed
  host 1 and the round-robin hosts 2 and 3; its organizer is the Fixed host and host 2
  attends it. Booking 101 is on event type 11, which has the round-robin hosts 2 and 3
  and no Fixed host; its organizer is host 2. Booking 102 is on event type 11 too, and
  its organizer, user 4, is not a host of the event type.
\<close>

definition mkUser :: "int \<Rightarrow> string \<Rightarrow> string \<Rightarrow> json \<Rightarrow> user" where
  "mkUser i e n m =
     \<lparr> user_id = i, user_email = e, user_name = Some n, user_username = None,
       user_timeZone = ''Europe/Paris'', user_locale = Some ''fr'', user_timeFormat = Some 24,
       user_metadata = m \<rparr>"

definition mkAttendee :: "int \<Rightarrow> int \<Rightarrow> string \<Rightarrow> string \<Rightarrow> attendee" where
  "mkAttendee i b e n =
     \<lparr> attendee_id = i, attendee_bookingId = Some b, attendee_email = e, attendee_name = n,
       attendee_timeZone = ''UTC'', attendee_locale = None, attendee_phoneNumber = None \<rparr>"

definition mkBooking :: "int \<Rightarrow> string \<Rightarrow> int \<Rightarrow> int \<Rightarrow> booking_row" where
  "mkBooking i u organizer et =
     \<lparr> row_id = i, row_uid = u, row_userId = Some organizer, row_userPrimaryEmail = None,
       row_eventTypeId = Some et, row_title = ''Intro call'',
       row_location = Some ''integrations:zoom'', row_startTime = ''2025-01-01T10:00:00Z'',
       row_endTime = ''2025-01-01T10:30:00Z'', row_responses = ''Guest'', row_customInputs = [] \<rparr>"

definition mkHostRow :: "int \<Rightarrow> bool \<Rightarrow> host_row" where
  "mkHostRow u f =
     \<lparr> host_userId = u, host_row_isFixed = f, host_row_priority = None, host_row_weight = None \<rparr>"

definition mkEventType :: "int \<Rightarrow> host_row list \<Rightarrow> eventType_row" where
  "mkEventType i hs =
     \<lparr> et_row_id = i, et_row_slug = ''intro'', et_row_title = ''Intro'', et_row_eventName = None,
       et_row_description = None, et_row_length = 30,
       et_row_locations = [JSObject 0 \<lparr> location_type = ''conferencing'', location_link = None \<rparr>],
       et_row_bookingFields = [], et_row_metadata = [], et_row_teamId = None, et_row_team = None,
       et_row_ownerHideBranding = None, et_row_hosts = hs, et_row_users = [] \<rparr>"

definition mkReminder :: "int \<Rightarrow> string \<Rightarrow> WorkflowTriggerEvents \<Rightarrow> workflowReminder" where
  "mkReminder i u t =
     \<lparr> reminder_id = i, reminder_referenceId = None, reminder_bookingUid = Some u,
       reminder_method = EMAIL,
       reminder_workflowStep =
         Some \<lparr> step_action = EMAIL_HOST, step_template = ''REMINDER'',
                step_workflow = Some \<lparr> wf_trigger = t, wf_time = Some 1, wf_timeUnit = Some ''HOUR'' \<rparr> \<rparr> \<rparr>"

definition example_db :: db where
  "example_db =
     \<lparr> bookings = [mkBooking 100 ''uid-100'' 1 10, mkBooking 101 ''uid-101'' 2 11,
                   mkBooking 102 ''uid-102'' 4 11],
       attendees = [mkAttendee 500 100 ''guest@example.com'' ''Guest'',
                    mkAttendee 501 100 ''u1@example.com'' ''Una'',
                    mkAttendee 502 101 ''guest@example.com'' ''Guest'',
                    mkAttendee 503 102 ''guest@example.com'' ''Guest''],
       users = [mkUser 1 ''fixed@example.com'' ''Fay'' [],
                mkUser 2 ''u1@example.com'' ''Una'' [],
                mkUser 3 ''u2@example.com'' ''Ugo'' ''https://meet.example.com/ugo'',
                mkUser 4 ''u4@example.com'' ''Uli'' []],
       eventTypes = [mkEventType 10 [mkHostRow 1 True, mkHostRow 2 False, mkHostRow 3 False],
                     mkEventType 11 [mkHostRow 2 False, mkHostRow 3 False]],
       credentials = [],
       destinationCalendars = [],
       bookingReferences =
         [(100, \<lparr> reference_type = ''google_calendar'', reference_uid = ''old-100'' \<rparr>),
          (101, \<lparr> reference_type = ''google_calendar'', reference_uid = ''old-101'' \<rparr>),
          (101, \<lparr> reference_type = ''zoom_video'', reference_uid = ''old-zoom-101'' \<rparr>)],
       workflowReminders = [mkReminder 900 ''uid-100'' BEFORE_EVENT,
                            mkReminder 901 ''uid-101'' BEFORE_EVENT,
                            mkReminder 902 ''uid-101'' AFTER_EVENT],
       workflows = [] \<rparr>"

definition example_deps :: deps where
  "example_deps =
     \<lparr> OrganizerDefaultConferencingAppType = ''conferencing'',
       responsesSafeParse =
         (\<lambda>fields r. if r = [] then None else Some \<lparr> responses_name = Some r, responses_data = r \<rparr>),
       userMetadataSafeParse =
         (\<lambda>m. if m = [] then None
              else Some \<lparr> defaultConferencingApp = Some \<lparr> appSlug = None, appLink = Some m \<rparr> \<rparr>),
       getLocationValueForDB = (\<lambda>l locs. l),
       getEventName = (\<lambda>obj. en_eventType obj @ '' with '' @ en_host obj @ '' at '' @ en_location obj),
       getDestinationCalendar = (\<lambda>et b u ch. None),
       getTeamMembers = (\<lambda>hs atts organizer previousHost reassignedHost. []),
       getCalEventResponses = (\<lambda>fields b. booking_responses b),
       isPrismaObjOrUndefined = (\<lambda>j. if j = [] then None else Some j),
       utcFormat = (\<lambda>t. t),
       reschedule =
         (\<lambda>u creds evt uid ch rm.
            [\<lparr> reference_type = ''google_calendar'', reference_uid = uid @ ''-'' @ user_email u \<rparr>]),
       getTimeFormatStringFromUserTimeFormat = (\<lambda>f. ''HH:mm''),
       getVideoCallUrlFromCalEvent = (\<lambda>evt. None),
       getBookerBaseUrl = (\<lambda>orgId. ''https://cal.example.com'') \<rparr>"




section \<open>Reading, allocating and cloning in the object store\<close>

lemma those_fields_iff:
  "those (map (\<lambda>(k, v). map_option (Pair k) (f v)) xs) = Some fs \<longleftrightarrow>
     list_all2 (\<lambda>kv kt. fst kv = fst kt \<and> f (snd kv) = Some (snd kt)) xs fs"
proof (induction xs arbitrary: fs)
  case Nil
  then show ?case by auto
next
  case (Cons x xs)
  then show ?case by (cases fs; cases x) (auto split: option.splits)
qed

lemma read_function:
  "a < length h \<Longrightarrow> h ! a = Function f \<Longrightarrow> read (Suc n) h (JS_ref a) = Some (TFun f)"
  by simp

lemma read_object:
  "a < length h \<Longrightarrow> h ! a = Object kvs \<Longrightarrow>
     read (Suc n) h (JS_ref a) = Some t \<longleftrightarrow> (\<exists>fs. t = TObj fs \<and> readFields n h kvs fs)"
  by (auto simp: those_fields_iff)

lemma read_refE:
  assumes "read n h (JS_ref a) = Some t"
  obtains m f where "n = Suc m" "a < length h" "h ! a = Function f" "t = TFun f"
  | m kvs fs where "n = Suc m" "a < length h" "h ! a = Object kvs" "t = TObj fs"
      "readFields m h kvs fs"
proof (cases n)
  case 0
  with assms show ?thesis by simp
next
  case (Suc m)
  with assms have a: "a < length h" by (simp split: if_splits)
  show ?thesis
  proof (cases "h ! a")
    case (Function f)
    with assms Suc a that(1) show ?thesis by simp
  next
    case (Object kvs)
    with assms Suc a obtain fs where "t = TObj fs" "readFields m h kvs fs"
      by (auto simp: those_fields_iff)
    with Suc a Object that(2) show ?thesis by blast
  qed
qed

text \<open>More fuel reads the same value.\<close>

lemma read_mono: "read n h v = Some t \<Longrightarrow> n \<le> m \<Longrightarrow> read m h v = Some t"
proof (induction n arbitrary: m v t)
  case 0
  then show ?case by (cases v) simp_all
next
  case (Suc n)
  show ?case
  proof (cases v)
    case (JS_prim p)
    with Suc.prems show ?thesis by simp
  next
    case (JS_ref a)
    from Suc.prems(2) obtain m' where m: "m = Suc m'" "n \<le> m'" by (cases m) auto
    from Suc.prems(1)[unfolded JS_ref] show ?thesis
    proof (cases rule: read_refE)
      case (1 k f)
      then show ?thesis unfolding JS_ref m(1) by simp
    next
      case (2 k kvs fs)
      then have k: "k = n" by simp
      from 2(5) have "readFields m' h kvs fs"
      proof (rule list_all2_mono)
        fix kv kt assume "fst kv = fst kt \<and> read k h (snd kv) = Some (snd kt)"
        then show "fst kv = fst kt \<and> read m' h (snd kv) = Some (snd kt)"
          using Suc.IH[of "snd kv" "snd kt" m'] m(2) k by simp
      qed
      with 2 show ?thesis unfolding JS_ref m(1) by (simp add: those_fields_iff)
    qed
  qed
qed

text \<open>
  A value read in a store reads the same in every store that has the same cells below the
  first store's end.
\<close>

lemma read_agreeBelow:
  "read n h v = Some t \<Longrightarrow> agreeBelow (length h) h h' \<Longrightarrow> read n h' v = Some t"
proof (induction n arbitrary: v t)
  case 0
  then show ?case by (cases v) simp_all
next
  case (Suc n)
  show ?case
  proof (cases v)
    case (JS_prim p)
    with Suc.prems show ?thesis by simp
  next
    case (JS_ref a)
    have cell: "a < length h \<Longrightarrow> a < length h' \<and> h' ! a = h ! a"
      using Suc.prems(2) by (auto simp: agreeBelow_def dest: arg_cong[where f="\<lambda>xs. xs ! a"])
    from Suc.prems(1)[unfolded JS_ref] show ?thesis
    proof (cases rule: read_refE)
      case (1 k f)
      with cell show ?thesis unfolding JS_ref by simp
    next
      case (2 k kvs fs)
      then have k: "k = n" by simp
      from 2(5) have "readFields n h' kvs fs"
      proof (rule list_all2_mono)
        fix kv kt assume "fst kv = fst kt \<and> read k h (snd kv) = Some (snd kt)"
        then show "fst kv = fst kt \<and> read n h' (snd kv) = Some (snd kt)"
          using Suc.IH[of "snd kv" "snd kt"] Suc.prems(2) k by simp
      qed
      with 2 cell show ?thesis unfolding JS_ref by (simp add: those_fields_iff)
    qed
  qed
qed

lemma agreeBelow_append: "agreeBelow (length h) h (h @ ext)"
  by (simp add: agreeBelow_def)

lemma read_append: "read n h v = Some t \<Longrightarrow> read n (h @ ext) v = Some t"
  by (rule read_agreeBelow[OF _ agreeBelow_append])

lemma readFields_append: "readFields n h kvs fs \<Longrightarrow> readFields n (h @ ext) kvs fs"
  by (erule list_all2_mono) (auto intro: read_append)

lemma readFields_mono: "readFields n h kvs fs \<Longrightarrow> n \<le> m \<Longrightarrow> readFields m h kvs fs"
  by (erule list_all2_mono) (auto elim: read_mono)

text \<open>Allocation appends cells, and what it has allocated for a tree reads as the tree.\<close>

lemma alloc_appends:
  "alloc t h = (v, h') \<Longrightarrow> \<exists>ext. h' = h @ ext"
  "alloc_fields fs h = (kvs, h') \<Longrightarrow> \<exists>ext. h' = h @ ext"
proof (induction t h and fs h arbitrary: v h' and kvs h' rule: alloc_alloc_fields.induct)
  case (1 p h)
  then show ?case by auto
next
  case (2 f h)
  then show ?case by auto
next
  case (3 fs h)
  from "3.prems" obtain kvs hp where
    f: "alloc_fields fs h = (kvs, hp)" and h': "h' = hp @ [Object kvs]"
    by (auto split: prod.splits)
  from "3.IH"[OF f] obtain ext where "hp = h @ ext" by blast
  then have "h' = h @ (ext @ [Object kvs])" by (simp add: h')
  then show ?case by blast
next
  case (4 h)
  then show ?case by auto
next
  case (5 k t fs h)
  from "5.prems" obtain v h1 kvs' where
    a: "alloc t h = (v, h1)" and f: "alloc_fields fs h1 = (kvs', h')"
    by (auto split: prod.splits)
  from "5.IH"(1)[OF a] obtain e1 where e1: "h1 = h @ e1" by blast
  from "5.IH"(2)[OF a[symmetric] f] obtain e2 where e2: "h' = h1 @ e2" by blast
  have "h' = h @ (e1 @ e2)" by (simp add: e1 e2)
  then show ?case by blast
qed

lemma read_alloc:
  "alloc t h = (v, h') \<Longrightarrow> height t \<le> n \<Longrightarrow> read n h' v = Some t"
  "alloc_fields fs h = (kvs, h') \<Longrightarrow> height_fields fs \<le> n \<Longrightarrow> readFields n h' kvs fs"
proof (induction t h and fs h arbitrary: v h' n and kvs h' n rule: alloc_alloc_fields.induct)
  case (1 p h)
  then show ?case by auto
next
  case (2 f h)
  then obtain m where "n = Suc m" by (cases n) auto
  with 2 show ?case by auto
next
  case (3 fs h)
  from "3.prems"(1) obtain kvs hp where
    f: "alloc_fields fs h = (kvs, hp)" and v: "v = JS_ref (length hp)" and h': "h' = hp @ [Object kvs]"
    by (auto split: prod.splits)
  from "3.prems"(2) obtain m where m: "n = Suc m" "height_fields fs \<le> m" by (cases n) auto
  from "3.IH"[OF f m(2)] have "readFields m hp kvs fs" .
  then have "readFields m h' kvs fs" unfolding h' by (rule readFields_append)
  then show ?case unfolding v m(1) by (simp add: h' those_fields_iff)
next
  case (4 h)
  then show ?case by auto
next
  case (5 k t fs h)
  from "5.prems"(1) obtain v h1 kvs' where
    a: "alloc t h = (v, h1)" and f: "alloc_fields fs h1 = (kvs', h')" and kvs: "kvs = (k, v) # kvs'"
    by (auto split: prod.splits)
  from "5.prems"(2) have ht: "height t \<le> n" and hf: "height_fields fs \<le> n" by simp_all
  from "5.IH"(1)[OF a ht] have r1: "read n h1 v = Some t" .
  from alloc_appends(2)[OF f] obtain e2 where "h' = h1 @ e2" by blast
  with read_append[OF r1, of e2] have "read n h' v = Some t" by simp
  moreover from "5.IH"(2)[OF a[symmetric] f hf] have "readFields n h' kvs' fs" .
  ultimately show ?case unfolding kvs by simp
qed

lemma sameFunctionsD:
  "sameFunctions h h0 \<Longrightarrow>
     length h0 = length h \<and> (\<forall>a f. a < length h \<longrightarrow> h ! a = Function f \<longrightarrow> h0 ! a = Function f)"
  by (auto simp: sameFunctions_def list_all2_conv_all_nth isFunction_def)

lemma sameFunctions_refl: "sameFunctions h h"
  by (simp add: sameFunctions_def list_all2_same)

text \<open>
  Cloning a value that reads as a tree succeeds with the fuel that read it, appends cells
  and changes none, and the clone reads as the same tree. The clone keeps reading so when
  the plain objects of the store the value lived in are replaced by anything: of those
  cells it refers to functions only.
\<close>

lemma clone_reads:
  "H = h @ e \<Longrightarrow> read n h v = Some t \<Longrightarrow>
     \<exists>v' ext. clone n H v = Some (v', H @ ext) \<and>
       (\<forall>h0 e0. sameFunctions h h0 \<longrightarrow> length e0 = length e \<longrightarrow>
                  read n (h0 @ e0 @ ext) v' = Some t)"
  "H = h @ e \<Longrightarrow> readFields n h kvs fs \<Longrightarrow>
     \<exists>kvs' ext. clone_fields n H kvs = Some (kvs', H @ ext) \<and>
       (\<forall>h0 e0. sameFunctions h h0 \<longrightarrow> length e0 = length e \<longrightarrow>
                  readFields n (h0 @ e0 @ ext) kvs' fs)"
proof (induction n H v and n H kvs arbitrary: h e t and h e fs rule: clone_clone_fields.induct)
  case (1 n H p)
  then have "clone n H (JS_prim p) = Some (JS_prim p, H @ [])" "t = TPrim p" by simp_all
  then show ?case by (intro exI[of _ "JS_prim p"] exI[of _ "[]"]) simp
next
  case (2 H a)
  then show ?case by simp
next
  case (3 n H a)
  from "3.prems"(2) show ?case
  proof (cases rule: read_refE)
    case (1 m f)
    then have cl: "clone (Suc n) H (JS_ref a) = Some (JS_ref a, H @ [])"
      using "3.prems"(1) by (simp add: nth_append)
    have "read (Suc n) (h0 @ e0 @ []) (JS_ref a) = Some t" if "sameFunctions h h0" for h0 e0
      using sameFunctionsD[OF that] 1 by (simp add: nth_append)
    with cl show ?thesis by blast
  next
    case (2 m kvs fs)
    then have m: "m = n" by simp
    have aH: "a < length H" "H ! a = Object kvs"
      using 2 "3.prems"(1) by (simp_all add: nth_append)
    from "3.IH"[OF aH "3.prems"(1)] 2(5) m obtain kvs' ext where
      cf: "clone_fields n H kvs = Some (kvs', H @ ext)" and
      fr: "\<And>h0 e0. sameFunctions h h0 \<Longrightarrow> length e0 = length e \<Longrightarrow>
             readFields n (h0 @ e0 @ ext) kvs' fs"
      by blast
    have cl: "clone (Suc n) H (JS_ref a) =
                Some (JS_ref (length (H @ ext)), H @ (ext @ [Object kvs']))"
      using aH cf by simp
    have "read (Suc n) (h0 @ e0 @ (ext @ [Object kvs'])) (JS_ref (length (H @ ext))) = Some t"
      if sf: "sameFunctions h h0" and len: "length e0 = length e" for h0 e0
    proof -
      from sameFunctionsD[OF sf] len "3.prems"(1)
      have l: "length (H @ ext) = length (h0 @ e0 @ ext)" by simp
      from fr[OF sf len] have "readFields n ((h0 @ e0 @ ext) @ [Object kvs']) kvs' fs"
        by (rule readFields_append)
      then show ?thesis unfolding l 2(4) by (simp add: those_fields_iff nth_append)
    qed
    with cl show ?thesis by blast
  qed
next
  case (4 n H)
  then have "clone_fields n H [] = Some ([], H @ [])" "fs = []" by simp_all
  then show ?case by (intro exI[of _ "[]"]) simp
next
  case (5 n H k v kvs)
  from "5.prems"(2) obtain t fs' where
    fs: "fs = (k, t) # fs'" and rv: "read n h v = Some t" and rf: "readFields n h kvs fs'"
    by (cases fs) auto
  from "5.IH"(1)[OF "5.prems"(1) rv] obtain v' ext1 where
    c1: "clone n H v = Some (v', H @ ext1)" and
    fr1: "\<And>h0 e0. sameFunctions h h0 \<Longrightarrow> length e0 = length e \<Longrightarrow>
            read n (h0 @ e0 @ ext1) v' = Some t"
    by blast
  have H1: "H @ ext1 = h @ (e @ ext1)" using "5.prems"(1) by simp
  from "5.IH"(2)[OF c1 refl H1 rf] obtain kvs' ext2 where
    c2: "clone_fields n (H @ ext1) kvs = Some (kvs', (H @ ext1) @ ext2)" and
    fr2: "\<And>h0 e0. sameFunctions h h0 \<Longrightarrow> length e0 = length (e @ ext1) \<Longrightarrow>
            readFields n (h0 @ e0 @ ext2) kvs' fs'"
    by blast
  have cl: "clone_fields n H ((k, v) # kvs) = Some ((k, v') # kvs', H @ (ext1 @ ext2))"
    using c1 c2 by simp
  have "readFields n (h0 @ e0 @ (ext1 @ ext2)) ((k, v') # kvs') fs"
    if sf: "sameFunctions h h0" and len: "length e0 = length e" for h0 e0
  proof -
    from read_append[OF fr1[OF sf len], of ext2]
    have "read n (h0 @ e0 @ ext1 @ ext2) v' = Some t" by simp
    moreover from fr2[OF sf, of "e0 @ ext1"] len
    have "readFields n (h0 @ e0 @ ext1 @ ext2) kvs' fs'" by simp
    ultimately show ?thesis unfolding fs by simp
  qed
  with cl show ?case by blast
qed

section \<open>Reading the calendar event back\<close>

lemma those_map_roundtrip:
  "(\<And>x. x \<in> set xs \<Longrightarrow> g (f x) = Some x) \<Longrightarrow> those (map (g \<circ> f) xs) = Some xs"
  by (induction xs) auto

lemma arrayOf_treeOfArray:
  assumes "\<And>x. g (f x) = Some x"
  shows "arrayOf g (treeOfArray (map f xs)) = Some xs"
proof -
  have "map snd (map (\<lambda>(i, t). (Idx i, t)) (enumerate 0 (map f xs))) = map f xs"
    by (simp add: comp_def split_def map_snd_enumerate)
  then have "map (g \<circ> snd) (map (\<lambda>(i, t). (Idx i, t)) (enumerate 0 (map f xs))) = map (g \<circ> f) xs"
    by (metis map_map)
  with those_map_roundtrip[of xs g f] assms show ?thesis
    by (simp add: arrayOf_def treeOfArray_def)
qed

lemma languageOfTree_treeOfLanguage: "languageOfTree (treeOfLanguage l) = Some l"
  by (simp add: languageOfTree_def treeOfLanguage_def property_def)

lemma personOfTree_treeOfAttendee: "personOfTree (treeOfAttendee p) = Some p"
  by (cases "person_phoneNumber p")
     (simp_all add: personOfTree_def treeOfAttendee_def property_def treeOfOptional_def
        languageOfTree_treeOfLanguage)

lemma personOfTree_treeOfOrganizer: "personOfTree (treeOfOrganizer p) = Some p"
  by (cases "person_phoneNumber p")
     (simp_all add: personOfTree_def treeOfOrganizer_def property_def
        languageOfTree_treeOfLanguage)

lemma destinationCalendarOfTree_roundtrip:
  "destinationCalendarOfTree (treeOfDestinationCalendar dc) = Some dc"
  by (cases "dc_userId dc")
     (simp_all add: destinationCalendarOfTree_def treeOfDestinationCalendar_def property_def)

lemma teamOfTree_treeOfTeam: "teamOfTree (treeOfTeam t) = Some t"
  by (simp add: teamOfTree_def treeOfTeam_def property_def
        arrayOf_treeOfArray[of personOfTree treeOfAttendee, OF personOfTree_treeOfAttendee])

lemma treeOfArray_not_undefined: "treeOfArray ts \<noteq> TPrim PUndefined"
  by (simp add: treeOfArray_def)

text \<open>An event laid out as an object reads back as the event.\<close>

lemma evtOfTree_treeOfEvt: "evtOfTree (treeOfEvt evt) = Some evt"
proof -
  have dc: "optionalArrayOf destinationCalendarOfTree
              (case evt_destinationCalendar evt of
                 None \<Rightarrow> TPrim PUndefined
               | Some dcs \<Rightarrow> treeOfArray (map treeOfDestinationCalendar dcs))
            = Some (evt_destinationCalendar evt)"
  proof (cases "evt_destinationCalendar evt")
    case None
    then show ?thesis by (simp add: optionalArrayOf_def)
  next
    case (Some dcs)
    have "arrayOf destinationCalendarOfTree (treeOfArray (map treeOfDestinationCalendar dcs)) = Some dcs"
      by (rule arrayOf_treeOfArray) (rule destinationCalendarOfTree_roundtrip)
    then show ?thesis using Some by (simp add: optionalArrayOf_def treeOfArray_not_undefined)
  qed
  have desc: "nullableStringOf (case evt_description evt of None \<Rightarrow> TPrim PNull | Some s \<Rightarrow> TPrim (PStr s))
                = Some (evt_description evt)"
    by (cases "evt_description evt") simp_all
  have js: "jsonOfTree (treeOfJson j) = Some j" for j
    by (simp add: jsonOfTree_def treeOfJson_def property_def)
  have ci: "optionalJsonOf (case evt_customInputs evt of None \<Rightarrow> TPrim PUndefined | Some j \<Rightarrow> treeOfJson j)
              = Some (evt_customInputs evt)"
    by (cases "evt_customInputs evt") (simp_all add: optionalJsonOf_def js, simp add: treeOfJson_def)
  have att: "arrayOf personOfTree (treeOfArray (map treeOfAttendee (evt_attendees evt)))
               = Some (evt_attendees evt)"
    by (rule arrayOf_treeOfArray) (rule personOfTree_treeOfAttendee)
  show ?thesis
    by (simp add: evtOfTree_def treeOfEvt_def property_def dc desc ci js att
          personOfTree_treeOfOrganizer teamOfTree_treeOfTeam)
qed

section \<open>The copy, the literal and the assignment\<close>

lemma setProp_list_all2:
  assumes "list_all2 R kvs fs" and "\<And>kv kt. R kv kt \<Longrightarrow> fst kv = fst kt" and "R (k, v) (k, t)"
  shows "list_all2 R (setProp kvs k v) (setProp fs k t)"
  using assms(1)
proof (induction kvs fs rule: list_all2_induct)
  case Nil
  then show ?case using assms(3) by simp
next
  case (Cons kv kvs kt fs)
  from assms(2)[OF Cons.hyps(1)] have "fst kv = fst kt" .
  with Cons assms(3) show ?case by (cases kv; cases kt) auto
qed

lemma nth_after_prefix:
  "(P @ [A, B, C]) ! length P = A"
  "(P @ [A, B, C]) ! Suc (length P) = B"
  "(P @ [A, B, C]) ! Suc (Suc (length P)) = C"
  by (simp_all add: nth_append)

text \<open>
  For an event that reads as an object in a store holding the previous organizer's
  translator: the three steps succeed and append cells only; the copy then reads as the
  event's object with the organizer property replaced by the literal's value, and it reads
  so whatever the plain objects that existed before the steps are replaced by.
\<close>

lemma buildCancelledEvt_reads:
  assumes evt: "read n h evtRef = Some (TObj fs)"
    and t: "tRef < length h" "h ! tRef = Function (getTranslation (or_default (user_locale u) ''en'') ''common'')"
    and n: "4 \<le> n"
  shows "\<exists>c E. buildCancelledEvt n h evtRef u (JS_ref tRef) = Some (c, h @ E) \<and>
           (\<forall>h0. sameFunctions h h0 \<longrightarrow>
              read n (h0 @ E) c =
                Some (TObj (setProp fs (Prop ''organizer'') (treeOfOrganizer (organizer_of u)))))"
proof -
  obtain a where ref: "evtRef = JS_ref a" using evt by (cases evtRef) auto
  from evt[unfolded ref] obtain m kvs where
    m: "n = Suc m" and a: "a < length h" "h ! a = Object kvs" and rf: "readFields m h kvs fs"
    by (cases rule: read_refE) auto
  from n m obtain m3 where m3: "m = Suc (Suc (Suc m3))"
    by (metis Suc_le_D Suc_le_mono numeral_Bit0 add_Suc add_Suc_right one_add_one add_2_eq_Suc
          numeral_2_eq_2 numeral_eq_Suc pred_numeral_simps(2) semiring_norm(26) semiring_norm(27))
  from clone_reads(2)[of h h "[]" m kvs fs] rf obtain kvs' ext where
    cf: "clone_fields m h kvs = Some (kvs', h @ ext)" and
    fr: "\<And>h0. sameFunctions h h0 \<Longrightarrow> readFields m (h0 @ ext) kvs' fs"
    by force
  let ?T = "getTranslation (or_default (user_locale u) ''en'') ''common''"
  let ?lang = "Object [(Prop ''translate'', JS_ref tRef),
                       (Prop ''locale'', JS_prim (PStr (or_default (user_locale u) ''en'')))]"
  let ?L = "length (h @ ext)"
  let ?org = "Object [(Prop ''email'', JS_prim (PStr (user_email u))),
                      (Prop ''name'', JS_prim (PStr (or_default (user_name u) []))),
                      (Prop ''timeZone'', JS_prim (PStr (user_timeZone u))),
                      (Prop ''language'', JS_ref (Suc ?L))]"
  let ?root = "Object (setProp kvs' (Prop ''organizer'') (JS_ref (Suc (Suc ?L))))"
  let ?E = "ext @ [?root, ?lang, ?org]"
  have cd: "cloneDeep n h evtRef = Some (JS_ref ?L, (h @ ext) @ [Object kvs'])"
    using a cf by (simp add: cloneDeep_def ref m isFunction_def)
  have lit: "organizerLiteral ((h @ ext) @ [Object kvs']) u (JS_ref tRef) =
               (JS_ref (Suc (Suc ?L)), (h @ ext) @ [Object kvs', ?lang, ?org])"
    by (simp add: organizerLiteral_def)
  have asg: "assignProp ((h @ ext) @ [Object kvs', ?lang, ?org]) (JS_ref ?L) (Prop ''organizer'')
               (JS_ref (Suc (Suc ?L))) = Some (h @ ?E)"
    unfolding assignProp_def by (simp add: nth_append list_update_append)
  have build: "buildCancelledEvt n h evtRef u (JS_ref tRef) = Some (JS_ref ?L, h @ ?E)"
    unfolding buildCancelledEvt_def cd using lit asg by simp
  have reads: "read n (h0 @ ?E) (JS_ref ?L) =
                 Some (TObj (setProp fs (Prop ''organizer'') (treeOfOrganizer (organizer_of u))))"
    if sf: "sameFunctions h h0" for h0
  proof -
    let ?P = "h0 @ ext"
    let ?H = "?P @ [?root, ?lang, ?org]"
    from sameFunctionsD[OF sf] t have len: "length h0 = length h"
      and t0: "tRef < length h0" "h0 ! tRef = Function ?T" by auto
    have cells: "?H ! ?L = ?root" "?H ! Suc ?L = ?lang" "?H ! Suc (Suc ?L) = ?org"
      using len by (simp_all add: nth_append)
    have tH: "tRef < length ?H" "?H ! tRef = Function ?T"
      using t0 by (simp_all add: nth_append)
    have rt: "read (Suc m3) ?H (JS_ref tRef) = Some (TFun ?T)"
      using tH by simp
    have rlang: "read (Suc (Suc m3)) ?H (JS_ref (Suc ?L)) =
                   Some (treeOfLanguage (person_language (organizer_of u)))"
      using rt cells(2) len
      by (simp add: treeOfLanguage_def organizer_of_def)
    have rorg: "read m ?H (JS_ref (Suc (Suc ?L))) = Some (treeOfOrganizer (organizer_of u))"
      unfolding m3 using rlang cells(3) len
      by (simp add: treeOfOrganizer_def organizer_of_def)
    from fr[OF sf] have "readFields m ?H kvs' fs" by (rule readFields_append)
    then have "readFields m ?H (setProp kvs' (Prop ''organizer'') (JS_ref (Suc (Suc ?L))))
                 (setProp fs (Prop ''organizer'') (treeOfOrganizer (organizer_of u)))"
      by (rule setProp_list_all2) (use rorg in simp_all)
    then have "read (Suc m) ?H (JS_ref ?L) =
                 Some (TObj (setProp fs (Prop ''organizer'') (treeOfOrganizer (organizer_of u))))"
      using cells(1) len by (simp add: those_fields_iff)
    then show ?thesis by (simp add: m)
  qed
  from build reads show ?thesis by blast
qed

section \<open>Lines 257 to 277 on the store\<close>

lemma evtFuel_bounds: "4 \<le> evtFuel evt" "height (treeOfEvt evt) \<le> evtFuel evt"
  by (simp_all add: evtFuel_def)

text \<open>
  The store that the event is laid out in: the previous organizer's translator at address
  0, and the event reading as itself.
\<close>

lemma layoutEvt_reads:
  obtains evtRef h where
    "layoutEvt evt u = (evtRef, JS_ref 0, h)"
    "0 < length h"
    "h ! 0 = Function (getTranslation (or_default (user_locale u) ''en'') ''common'')"
    "read (evtFuel evt) h evtRef = Some (treeOfEvt evt)"
proof -
  let ?T = "getTranslation (or_default (user_locale u) ''en'') ''common''"
  obtain evtRef h where a: "alloc (treeOfEvt evt) [Function ?T] = (evtRef, h)"
    by (cases "alloc (treeOfEvt evt) [Function ?T]")
  from alloc_appends(1)[OF a] obtain ext where h: "h = [Function ?T] @ ext" by blast
  from read_alloc(1)[OF a order_refl] have "read (height (treeOfEvt evt)) h evtRef = Some (treeOfEvt evt)" .
  then have r: "read (evtFuel evt) h evtRef = Some (treeOfEvt evt)"
    using read_mono(1)[of "height (treeOfEvt evt)" h evtRef "treeOfEvt evt" "evtFuel evt"]
      evtFuel_bounds(2)[of evt] by simp
  have l: "layoutEvt evt u = (evtRef, JS_ref 0, h)"
    using a by (simp add: layoutEvt_def)
  show thesis
    by (rule that[OF l _ _ r]) (simp_all add: h)
qed

lemma treeOfEvt_cancelled:
  "treeOfEvt evt = TObj fs \<Longrightarrow>
     TObj (setProp fs (Prop ''organizer'') (treeOfOrganizer (organizer_of u)))
       = treeOfEvt (cancelledEvt_of evt u)"
  by (auto simp add: treeOfEvt_def cancelledEvt_of_def)

lemma agreeButOldObjects_split:
  assumes "agreeButOldObjects (length h) (h @ E) h''"
  obtains h0 where "h'' = h0 @ E" "sameFunctions h h0"
proof
  from assms have len: "length h'' = length h + length E" and d: "E = drop (length h) h''"
    and sf: "sameFunctions h (take (length h) h'')"
    by (simp_all add: agreeButOldObjects_def)
  show "h'' = take (length h) h'' @ E" using d by simp
  show "sameFunctions h (take (length h) h'')" by (rule sf)
qed

text \<open>
  The objects of lines 257 to 263 for any event and any previous organizer. The steps
  succeed and append cells only. After them the cancelled event reads as the event with
  the previous organizer as organizer, and the event as itself. The event reads as itself
  in every store that agrees with that one on the cells that existed before the copy; the
  cancelled event reads as it does in every store that agrees on the cells the steps
  created and on the functions among the older cells.
\<close>

lemma cancellation_objects:
  obtains evtRef h cancelledRef E where
    "layoutEvt evt u = (evtRef, JS_ref 0, h)"
    "buildCancelledEvt (evtFuel evt) h evtRef u (JS_ref 0) = Some (cancelledRef, h @ E)"
    "read (evtFuel evt) (h @ E) cancelledRef = Some (treeOfEvt (cancelledEvt_of evt u))"
    "read (evtFuel evt) (h @ E) evtRef = Some (treeOfEvt evt)"
    "\<And>h''. agreeBelow (length h) (h @ E) h'' \<Longrightarrow>
            read (evtFuel evt) h'' evtRef = Some (treeOfEvt evt)"
    "\<And>h''. agreeButOldObjects (length h) (h @ E) h'' \<Longrightarrow>
            read (evtFuel evt) h'' cancelledRef = Some (treeOfEvt (cancelledEvt_of evt u))"
proof -
  obtain evtRef h where l: "layoutEvt evt u = (evtRef, JS_ref 0, h)"
    and t: "0 < length h" "h ! 0 = Function (getTranslation (or_default (user_locale u) ''en'') ''common'')"
    and r: "read (evtFuel evt) h evtRef = Some (treeOfEvt evt)"
    by (rule layoutEvt_reads)
  obtain fs where fs: "treeOfEvt evt = TObj fs" by (simp add: treeOfEvt_def)
  from buildCancelledEvt_reads[OF r[unfolded fs] t evtFuel_bounds(1)]
  obtain c E where b: "buildCancelledEvt (evtFuel evt) h evtRef u (JS_ref 0) = Some (c, h @ E)"
    and rc0: "\<And>h0. sameFunctions h h0 \<Longrightarrow>
               read (evtFuel evt) (h0 @ E) c =
                 Some (TObj (setProp fs (Prop ''organizer'') (treeOfOrganizer (organizer_of u))))"
    by blast
  have rc: "read (evtFuel evt) (h0 @ E) c = Some (treeOfEvt (cancelledEvt_of evt u))"
    if "sameFunctions h h0" for h0
    using rc0[OF that] treeOfEvt_cancelled[OF fs, of u] by simp
  have 3: "read (evtFuel evt) (h @ E) c = Some (treeOfEvt (cancelledEvt_of evt u))"
    by (rule rc[OF sameFunctions_refl])
  have 4: "read (evtFuel evt) (h @ E) evtRef = Some (treeOfEvt evt)"
    using r by (rule read_append)
  have 5: "read (evtFuel evt) h'' evtRef = Some (treeOfEvt evt)"
    if a: "agreeBelow (length h) (h @ E) h''" for h''
  proof -
    from a have "agreeBelow (length h) h h''" by (simp add: agreeBelow_def)
    with r show ?thesis by (rule read_agreeBelow)
  qed
  have 6: "read (evtFuel evt) h'' c = Some (treeOfEvt (cancelledEvt_of evt u))"
    if a: "agreeButOldObjects (length h) (h @ E) h''" for h''
  proof -
    from a obtain h0 where "h'' = h0 @ E" "sameFunctions h h0" by (rule agreeButOldObjects_split)
    with rc show ?thesis by simp
  qed
  from l b 3 4 5 6 show thesis by (rule that)
qed

text \<open>
  What the callees are handed: the cancelled event is the event with the previous
  organizer as organizer, and the event is as it was.
\<close>

lemma cancellationOnStore_eq:
  "cancellationOnStore evt u = Some (cancelledEvt_of evt u, evt)"
proof -
  obtain evtRef h cancelledRef E where
    "layoutEvt evt u = (evtRef, JS_ref 0, h)"
    "buildCancelledEvt (evtFuel evt) h evtRef u (JS_ref 0) = Some (cancelledRef, h @ E)"
    "read (evtFuel evt) (h @ E) cancelledRef = Some (treeOfEvt (cancelledEvt_of evt u))"
    "read (evtFuel evt) (h @ E) evtRef = Some (treeOfEvt evt)"
    by (rule cancellation_objects)
  then show ?thesis
    by (simp add: cancellationOnStore_def cancellationObjects_def evtOfTree_treeOfEvt)
qed

section \<open>The orchestrator in closed form\<close>

text \<open>
  The store steps always succeed and hand the callees the event with its organizer
  replaced and the event unchanged, so the orchestrator is the following.
\<close>

lemma afterMutation_eq:
  "afterMutation c bookingId newUserId orgId r d written b =
     (let eventType = res_eventType r;
          newUser = host_user (res_newUserHost r);
          originalOrganizer = res_originalOrganizer r;
          hasOrganizerChanged = hasOrganizerChanged_of r newUserId;
          evt = buildEvt c b eventType (res_eventTypeHosts r) newUser originalOrganizer newUserId
                  hasOrganizerChanged;
          credentials = credential_findMany d (user_id newUser);
          previousHostDestinationCalendar =
            (if hasOrganizerChanged then destinationCalendar_findFirst d (user_id originalOrganizer)
             else None);
          removeFrom = (case previousHostDestinationCalendar of None \<Rightarrow> [] | Some dc \<Rightarrow> [dc]);
          referencesToCreate =
            reschedule c newUser credentials evt (booking_uid b) hasOrganizerChanged removeFrom;
          newReferencesToCreate = referencesToCreate;
          d' = replaceBookingReferences d bookingId newReferencesToCreate;
          cancelledEvt = cancelledEvt_of evt originalOrganizer
      in \<lparr> out_db = d',
           out_effects =
             written
             @ [EventManager_reschedule newUser credentials evt (booking_uid b) hasOrganizerChanged
                  removeFrom,
                ReplaceBookingReferences bookingId newReferencesToCreate,
                SendRoundRobinScheduledEmailsAndSMS evt [recipient_of c newUser],
                SendRoundRobinCancelledEmailsAndSMS cancelledEvt [recipient_of c originalOrganizer]
                  (et_metadata eventType)]
             @ (if hasOrganizerChanged
                then handleWorkflowsUpdate c d' b newUser evt eventType orgId else []),
           out_result = Inr b \<rparr>)"
  by (simp add: afterMutation_def Let_def cancellationOnStore_eq)

section \<open>Storage lemmas\<close>

lemma findUser_id: "findUser d uid = Some u \<Longrightarrow> user_id u = uid"
  by (auto simp: findUser_def find_Some_iff)

lemma findUser_self: "findUser d uid = Some u \<Longrightarrow> findUser d (user_id u) = Some u"
  using findUser_id by fastforce

lemma loadHost_user:
  "loadHost d hr = Some h \<Longrightarrow> findUser d (user_id (host_user h)) = Some (host_user h)"
  by (auto simp: loadHost_def dest: findUser_self)

lemma loaded_host_user:
  assumes "getEventTypesFromDB d etid = Some et" and "h \<in> set (eventTypeHosts_of et)"
  shows "findUser d (user_id (host_user h)) = Some (host_user h)"
proof -
  from assms(1) obtain e :: eventType_row where
    hosts: "et_hosts et = List.map_filter (loadHost d) (et_row_hosts e)" and
    us: "et_users et = List.map_filter (findUser d) (et_row_users e)"
    by (auto simp: getEventTypesFromDB_def)
  show ?thesis
  proof (cases "length (et_hosts et) \<noteq> 0")
    case True
    with assms(2) have "h \<in> set (et_hosts et)" by (simp add: eventTypeHosts_of_def)
    with hosts obtain hr where "loadHost d hr = Some h"
      by (auto simp: List.map_filter_def)
    then show ?thesis by (rule loadHost_user)
  next
    case False
    with assms(2) obtain u where "u \<in> set (et_users et)" and hu: "host_user h = u"
      by (auto simp: eventTypeHosts_of_def)
    with us obtain x where "findUser d x = Some u" by (auto simp: List.map_filter_def)
    then show ?thesis using hu by (simp add: findUser_self)
  qed
qed

lemma booking_findUnique_row:
  "booking_findUnique d bid = Some b \<Longrightarrow>
     \<exists>r. find (\<lambda>r. row_id r = bid) (bookings d) = Some r \<and> row_id r = bid \<and> b = selectBooking d r"
  by (auto simp: booking_findUnique_def find_Some_iff)

lemma booking_findUnique_id: "booking_findUnique d bid = Some b \<Longrightarrow> booking_id b = bid"
  by (auto simp: selectBooking_def dest: booking_findUnique_row)

lemma find_map_key:
  assumes "\<And>x. P (f x) = P x"
  shows "find P (map f xs) = map_option f (find P xs)"
  using assms by (induction xs) auto

lemma booking_update_ok:
  assumes "booking_findUnique d bid = Some b"
  shows "\<exists>d' b'. booking_update d bid u t e = Inr (d', b') \<and>
           booking_findUnique d' bid = Some b' \<and>
           b' = b\<lparr> booking_userId := Some u, booking_title := t, booking_user := findUser d u \<rparr> \<and>
           attendees d' = attendees d \<and> users d' = users d \<and> eventTypes d' = eventTypes d \<and>
           credentials d' = credentials d \<and> destinationCalendars d' = destinationCalendars d \<and>
           bookingReferences d' = bookingReferences d \<and> workflowReminders d' = workflowReminders d \<and>
           workflows d' = workflows d"
proof -
  from booking_findUnique_row[OF assms] obtain r where
    r: "find (\<lambda>r. row_id r = bid) (bookings d) = Some r" "row_id r = bid" "b = selectBooking d r"
    by blast
  let ?f = "\<lambda>r. if row_id r = bid
                 then r\<lparr> row_userId := Some u, row_title := t, row_userPrimaryEmail := Some e \<rparr>
                 else r"
  have "find (\<lambda>r. row_id r = bid) (map ?f (bookings d)) = map_option ?f (find (\<lambda>r. row_id r = bid) (bookings d))"
    by (rule find_map_key) simp
  with r show ?thesis
    by (simp add: booking_update_def booking_findUnique_def selectBooking_def findUser_def Let_def)
qed

lemma attendee_update_ok:
  assumes "booking_findUnique d bid = Some b" and "a \<in> set (booking_attendees b)"
  shows "\<exists>d'. attendee_update d (attendee_id a) n e tz l = Inr d' \<and>
           bookings d' = bookings d \<and> users d' = users d \<and>
           bookingReferences d' = bookingReferences d \<and>
           attendees d' =
             map (\<lambda>x. if attendee_id x = attendee_id a
                      then x\<lparr> attendee_name := n, attendee_email := e,
                              attendee_timeZone := tz, attendee_locale := l \<rparr>
                      else x) (attendees d)"
proof -
  from assms have "a \<in> set (attendees d)"
    by (auto simp: selectBooking_def dest!: booking_findUnique_row)
  then have "list_ex (\<lambda>x. attendee_id x = attendee_id a) (attendees d)"
    by (auto simp: list_ex_iff)
  then show ?thesis by (simp add: attendee_update_def)
qed

lemma selectBooking_replace:
  "selectBooking (replaceBookingReferences d bid refs) = selectBooking d"
  by (rule ext) (simp add: selectBooking_def replaceBookingReferences_def findUser_def
        cong: option.case_cong)

lemma booking_findUnique_replace:
  "booking_findUnique (replaceBookingReferences d bid refs) bid' = booking_findUnique d bid'"
  by (simp add: booking_findUnique_def selectBooking_replace) (simp add: replaceBookingReferences_def)

lemma referencesOf_replace:
  "referencesOf (replaceBookingReferences d bid refs) bid = refs"
  by (simp add: referencesOf_def replaceBookingReferences_def filter_map comp_def split_def)

lemma referencesOf_replace_other:
  "bid' \<noteq> bid \<Longrightarrow> referencesOf (replaceBookingReferences d bid refs) bid' = referencesOf d bid'"
  by (auto simp: referencesOf_def replaceBookingReferences_def filter_map comp_def split_def
        intro!: arg_cong[where f="map snd"] filter_cong)

section \<open>The resolver\<close>

lemma validating_InrD:
  assumes "validating d bid nu = Inr r"
  shows "\<exists>etid et. booking_findUnique d bid = Some (res_booking r) \<and>
           booking_user (res_booking r) = Some (res_originalOrganizer r) \<and>
           booking_eventTypeId (res_booking r) = Some etid \<and> etid \<noteq> 0 \<and>
           getEventTypesFromDB d etid = Some et \<and>
           res_eventType r = et \<and>
           res_eventTypeHosts r = eventTypeHosts_of et \<and>
           res_fixedHost r = fixedHost_of (eventTypeHosts_of et) \<and>
           res_currentRRHost r = currentRRHost_of (eventTypeHosts_of et) (booking_attendees (res_booking r)) \<and>
           newUserHost_of (eventTypeHosts_of et) nu = Some (res_newUserHost r) \<and>
           \<not> host_isFixed (res_newUserHost r)"
  using assms
  by (auto simp: validating_def Let_def truthy_number_def split: option.splits if_splits)

lemma validating_InrI:
  assumes "booking_findUnique d bid = Some b" "booking_user b = Some organizer"
    "booking_eventTypeId b = Some etid" "etid \<noteq> 0" "getEventTypesFromDB d etid = Some et"
    "newUserHost_of (eventTypeHosts_of et) nu = Some h" "\<not> host_isFixed h"
  shows "validating d bid nu =
           Inr \<lparr> res_booking = b, res_originalOrganizer = organizer, res_eventType = et,
                 res_eventTypeHosts = eventTypeHosts_of et,
                 res_fixedHost = fixedHost_of (eventTypeHosts_of et),
                 res_currentRRHost = currentRRHost_of (eventTypeHosts_of et) (booking_attendees b),
                 res_newUserHost = h \<rparr>"
  using assms by (simp add: validating_def Let_def truthy_number_def)

lemma newUserHost_ofD:
  "newUserHost_of hs nu = Some h \<Longrightarrow> h \<in> set hs \<and> user_id (host_user h) = nu"
  by (auto simp: newUserHost_of_def find_Some_iff)

lemma newUserHost_of_None_iff:
  "newUserHost_of hs nu = None \<longleftrightarrow> (\<forall>h\<in>set hs. user_id (host_user h) \<noteq> nu)"
  by (auto simp: newUserHost_of_def find_None_iff)

lemma fixedHost_of_None_iff: "fixedHost_of hs = None \<longleftrightarrow> \<not> list_ex host_isFixed hs"
  by (auto simp: fixedHost_of_def find_None_iff list_ex_iff)

lemma currentRRHost_ofD:
  "currentRRHost_of hs atts = Some a \<Longrightarrow>
     a \<in> set atts \<and> (\<exists>h\<in>set hs. \<not> host_isFixed h \<and> user_email (host_user h) = attendee_email a)"
  by (auto simp: currentRRHost_of_def find_Some_iff list_ex_iff)

lemma reassignment_failure_writes_nothing:
  assumes "out_result (roundRobinManualReassignment c d bid nu orgId) = Inl e"
  shows "out_db (roundRobinManualReassignment c d bid nu orgId) = d \<and>
         out_effects (roundRobinManualReassignment c d bid nu orgId) = []"
  using assms
  by (auto simp: roundRobinManualReassignment_def afterMutation_eq Let_def split: sum.splits)

lemmas example_defs =
  example_db_def example_deps_def mkUser_def mkAttendee_def mkBooking_def mkHostRow_def
  mkEventType_def mkReminder_def

lemmas query_defs =
  booking_findUnique_def selectBooking_def findUser_def getEventTypesFromDB_def loadHost_def
  List.map_filter_def eventTypeHosts_of_def newUserHost_of_def fixedHost_of_def
  currentRRHost_of_def

section \<open>Claims about the guards\<close>

text \<open>
  C4. Whatever the hosts of the event type are, a call whose target host (the host the
  resolver finds for the requested user id) is Fixed fails with the error whose message is
  \<^verbatim>\<open>ErrorCode.UserIsFixed\<close>, the spec's FixedHostTarget. The booking, its user and its
  event type have to load, since those guards come first. Nothing is written and no
  collaborator is called.
\<close>

theorem reassign_to_fixed_host_fails:
  assumes "booking_findUnique d bookingId = Some b"
    and "booking_user b = Some organizer"
    and "booking_eventTypeId b = Some eventTypeId" and "eventTypeId \<noteq> 0"
    and "getEventTypesFromDB d eventTypeId = Some eventType"
    and "newUserHost_of (eventTypeHosts_of eventType) newUserId = Some targetHost"
    and "host_isFixed targetHost"
  shows "roundRobinManualReassignment c d bookingId newUserId orgId =
           \<lparr> out_db = d, out_effects = [],
             out_result = Inl (Error ''user_is_round_robin_fixed'') \<rparr>"
  using assms
  by (simp add: roundRobinManualReassignment_def validating_def truthy_number_def Let_def)

theorem reassign_to_fixed_host_fails_witness:
  "(\<exists>h. newUserHost_of (eventTypeHosts_of (the (getEventTypesFromDB example_db 10))) 1 = Some h \<and>
        host_isFixed h) \<and>
   roundRobinManualReassignment example_deps example_db 100 1 None =
     \<lparr> out_db = example_db, out_effects = [],
       out_result = Inl (Error ''user_is_round_robin_fixed'') \<rparr>"
proof -
  define b where "b = the (booking_findUnique example_db 100)"
  define et where "et = the (getEventTypesFromDB example_db 10)"
  define h where "h = the (newUserHost_of (eventTypeHosts_of et) 1)"
  have 1: "booking_findUnique example_db 100 = Some b"
    unfolding b_def by (simp add: example_defs query_defs)
  have 2: "booking_user b = Some (mkUser 1 ''fixed@example.com'' ''Fay'' [])"
    unfolding b_def by (simp add: example_defs query_defs)
  have 3: "booking_eventTypeId b = Some 10"
    unfolding b_def by (simp add: example_defs query_defs)
  have 4: "getEventTypesFromDB example_db 10 = Some et"
    unfolding et_def by (simp add: example_defs query_defs)
  have 5: "newUserHost_of (eventTypeHosts_of et) 1 = Some h"
    unfolding h_def et_def by (simp add: example_defs query_defs)
  have 6: "host_isFixed h"
    unfolding h_def et_def by (simp add: example_defs query_defs)
  from reassign_to_fixed_host_fails[OF 1 2 3 _ 4 5 6, of example_deps None] 5 6
  show ?thesis unfolding et_def by simp
qed

text \<open>
  C5. A call whose target id is the id of no host of the event type fails with the error
  whose message is \<^verbatim>\<open>ErrorCode.InvalidRoundRobinHost\<close>, the spec's InvalidTarget. The
  storage after the call is the storage before it and the list of effects is empty: no
  booking, attendee or reference write precedes the failure.
\<close>

theorem unknown_target_fails_before_any_write:
  assumes "booking_findUnique d bookingId = Some b"
    and "booking_user b = Some organizer"
    and "booking_eventTypeId b = Some eventTypeId" and "eventTypeId \<noteq> 0"
    and "getEventTypesFromDB d eventTypeId = Some eventType"
    and "\<forall>h \<in> set (eventTypeHosts_of eventType). user_id (host_user h) \<noteq> newUserId"
  shows "roundRobinManualReassignment c d bookingId newUserId orgId =
           \<lparr> out_db = d, out_effects = [],
             out_result = Inl (Error ''invalid_round_robin_host'') \<rparr>"
proof -
  from assms(6) have "newUserHost_of (eventTypeHosts_of eventType) newUserId = None"
    by (simp add: newUserHost_of_None_iff)
  with assms(1-5) show ?thesis
    by (simp add: roundRobinManualReassignment_def validating_def truthy_number_def Let_def)
qed

theorem unknown_target_fails_before_any_write_witness:
  "map (\<lambda>h. user_id (host_user h)) (eventTypeHosts_of (the (getEventTypesFromDB example_db 11)))
     = [2, 3] \<and>
   roundRobinManualReassignment example_deps example_db 102 4 None =
     \<lparr> out_db = example_db, out_effects = [],
       out_result = Inl (Error ''invalid_round_robin_host'') \<rparr>"
proof -
  define b where "b = the (booking_findUnique example_db 102)"
  define et where "et = the (getEventTypesFromDB example_db 11)"
  have 1: "booking_findUnique example_db 102 = Some b"
    unfolding b_def by (simp add: example_defs query_defs)
  have 2: "booking_user b = Some (mkUser 4 ''u4@example.com'' ''Uli'' [])"
    unfolding b_def by (simp add: example_defs query_defs)
  have 3: "booking_eventTypeId b = Some 11"
    unfolding b_def by (simp add: example_defs query_defs)
  have 4: "getEventTypesFromDB example_db 11 = Some et"
    unfolding et_def by (simp add: example_defs query_defs)
  have ids: "map (\<lambda>h. user_id (host_user h)) (eventTypeHosts_of et) = [2, 3]"
    unfolding et_def by (simp add: example_defs query_defs)
  have 5: "\<forall>h \<in> set (eventTypeHosts_of et). user_id (host_user h) \<noteq> 4"
  proof
    fix h assume "h \<in> set (eventTypeHosts_of et)"
    then have "user_id (host_user h) \<in> set (map (\<lambda>h. user_id (host_user h)) (eventTypeHosts_of et))"
      by simp
    then show "user_id (host_user h) \<noteq> 4" unfolding ids by auto
  qed
  from unknown_target_fails_before_any_write[OF 1 2 3 _ 4 5, of example_deps None] ids
  show ?thesis unfolding et_def by simp
qed

section \<open>The Mutating step, case by case\<close>

lemma filter_map_key:
  assumes "\<And>x. P (f x) = P x"
  shows "filter P (map f xs) = map f (filter P xs)"
  using assms by (induction xs) auto

lemma booking_findUnique_after_attendee_update:
  assumes "attendee_update d aid n e tz l = Inr d1" and "booking_findUnique d bid = Some b"
  shows "booking_findUnique d1 bid =
           Some (b\<lparr> booking_attendees :=
                     map (\<lambda>x. if attendee_id x = aid
                              then x\<lparr> attendee_name := n, attendee_email := e,
                                      attendee_timeZone := tz, attendee_locale := l \<rparr>
                              else x) (booking_attendees b) \<rparr>)"
proof -
  let ?f = "\<lambda>x. if attendee_id x = aid
                 then x\<lparr> attendee_name := n, attendee_email := e,
                         attendee_timeZone := tz, attendee_locale := l \<rparr>
                 else x"
  from assms(1) have d1: "d1 = d\<lparr> attendees := map ?f (attendees d) \<rparr>"
    by (simp add: attendee_update_def split: if_splits)
  from booking_findUnique_row[OF assms(2)] obtain r where
    r: "find (\<lambda>r. row_id r = bid) (bookings d) = Some r" "b = selectBooking d r"
    by blast
  have "filter (\<lambda>a. attendee_bookingId a = Some (row_id r)) (map ?f (attendees d)) =
        map ?f (filter (\<lambda>a. attendee_bookingId a = Some (row_id r)) (attendees d))"
    by (rule filter_map_key) simp
  with r show ?thesis
    by (simp add: d1 booking_findUnique_def selectBooking_def findUser_def cong: option.case_cong)
qed

lemma mutating_changed:
  assumes v: "validating d bid nu = Inr r" and ch: "hasOrganizerChanged_of r nu"
  shows "\<exists>d1 b1. mutating c d bid nu r =
             Inr (d1, [Booking_update bid nu
                         (newBookingTitle_of c (res_booking r) (res_eventType r)
                            (host_user (res_newUserHost r)))
                         (user_email (host_user (res_newUserHost r)))], b1) \<and>
           booking_findUnique d1 bid = Some b1 \<and>
           b1 = (res_booking r)\<lparr> booking_userId := Some nu,
                   booking_title := newBookingTitle_of c (res_booking r) (res_eventType r)
                                      (host_user (res_newUserHost r)),
                   booking_user := Some (host_user (res_newUserHost r)) \<rparr> \<and>
           attendees d1 = attendees d \<and> users d1 = users d \<and>
           credentials d1 = credentials d \<and> destinationCalendars d1 = destinationCalendars d \<and>
           bookingReferences d1 = bookingReferences d \<and>
           workflowReminders d1 = workflowReminders d \<and> workflows d1 = workflows d"
proof -
  from validating_InrD[OF v] obtain etid et where
    b: "booking_findUnique d bid = Some (res_booking r)" and
    et: "getEventTypesFromDB d etid = Some et" and
    h: "newUserHost_of (eventTypeHosts_of et) nu = Some (res_newUserHost r)"
    by blast
  from newUserHost_ofD[OF h] have hin: "res_newUserHost r \<in> set (eventTypeHosts_of et)"
    and hid: "user_id (host_user (res_newUserHost r)) = nu" by simp_all
  from loaded_host_user[OF et hin] hid
  have fu: "findUser d nu = Some (host_user (res_newUserHost r))" by simp
  from booking_update_ok[OF b, of nu
      "newBookingTitle_of c (res_booking r) (res_eventType r) (host_user (res_newUserHost r))"
      "user_email (host_user (res_newUserHost r))"]
  show ?thesis using ch fu by (auto simp: mutating_def Let_def)
qed

lemma mutating_substitute:
  assumes v: "validating d bid nu = Inr r" and ch: "\<not> hasOrganizerChanged_of r nu"
    and a: "res_currentRRHost r = Some a"
  shows "\<exists>d1. mutating c d bid nu r =
             Inr (d1, [Attendee_update (attendee_id a)
                         (or_default (user_name (host_user (res_newUserHost r))) [])
                         (user_email (host_user (res_newUserHost r)))
                         (user_timeZone (host_user (res_newUserHost r)))
                         (user_locale (host_user (res_newUserHost r)))], res_booking r) \<and>
           attendee_update d (attendee_id a)
               (or_default (user_name (host_user (res_newUserHost r))) [])
               (user_email (host_user (res_newUserHost r)))
               (user_timeZone (host_user (res_newUserHost r)))
               (user_locale (host_user (res_newUserHost r))) = Inr d1"
proof -
  from validating_InrD[OF v] a obtain et where
    b: "booking_findUnique d bid = Some (res_booking r)" and
    cur: "currentRRHost_of (eventTypeHosts_of et) (booking_attendees (res_booking r)) = Some a"
    by auto
  from currentRRHost_ofD[OF cur] have "a \<in> set (booking_attendees (res_booking r))" by simp
  from attendee_update_ok[OF b this,
      of "or_default (user_name (host_user (res_newUserHost r))) []"
         "user_email (host_user (res_newUserHost r))"
         "user_timeZone (host_user (res_newUserHost r))"
         "user_locale (host_user (res_newUserHost r))"]
  obtain d1 where "attendee_update d (attendee_id a)
               (or_default (user_name (host_user (res_newUserHost r))) [])
               (user_email (host_user (res_newUserHost r)))
               (user_timeZone (host_user (res_newUserHost r)))
               (user_locale (host_user (res_newUserHost r))) = Inr d1"
    by blast
  then show ?thesis
    using ch a by (simp add: mutating_def Let_def)
qed

lemma mutating_noop:
  assumes "\<not> hasOrganizerChanged_of r nu" and "res_currentRRHost r = None"
  shows "mutating c d bid nu r = Inr (d, [], res_booking r)"
  using assms by (simp add: mutating_def Let_def)

lemma reassignment_after_validation:
  assumes "validating d bid nu = Inr r" and "mutating c d bid nu r = Inr (d1, w, b1)"
  shows "roundRobinManualReassignment c d bid nu orgId = afterMutation c bid nu orgId r d1 w b1"
  using assms by (simp add: roundRobinManualReassignment_def)

lemma reassignment_successD:
  assumes "out_result (roundRobinManualReassignment c d bid nu orgId) = Inr b'"
  shows "\<exists>r d1 w. validating d bid nu = Inr r \<and> mutating c d bid nu r = Inr (d1, w, b') \<and>
           roundRobinManualReassignment c d bid nu orgId = afterMutation c bid nu orgId r d1 w b'"
  using assms
  by (auto simp: roundRobinManualReassignment_def afterMutation_eq Let_def split: sum.splits)

lemma afterMutation_result: "out_result (afterMutation c bid nu orgId r d1 w b1) = Inr b1"
  by (simp add: afterMutation_eq Let_def)

lemma afterMutation_stored:
  "booking_findUnique (out_db (afterMutation c bid nu orgId r d1 w b1)) bid' = booking_findUnique d1 bid'"
  by (simp add: afterMutation_eq Let_def booking_findUnique_replace)


lemma afterMutation_bookings:
  "bookings (out_db (afterMutation c bid nu orgId r d1 w b1)) = bookings d1"
  by (simp add: afterMutation_eq Let_def replaceBookingReferences_def)

lemma reassignment_succeeds:
  assumes v: "validating d bid nu = Inr r"
  shows "\<exists>b'. out_result (roundRobinManualReassignment c d bid nu orgId) = Inr b'"
proof -
  have "\<exists>d1 w b1. mutating c d bid nu r = Inr (d1, w, b1)"
  proof (cases "hasOrganizerChanged_of r nu")
    case True
    from mutating_changed[OF v True, of c] show ?thesis by blast
  next
    case False
    show ?thesis
    proof (cases "res_currentRRHost r")
      case None
      from mutating_noop[OF False None, of c d bid] show ?thesis by blast
    next
      case (Some a)
      from mutating_substitute[OF v False Some, of c] show ?thesis by blast
    qed
  qed
  then obtain d1 w b1 where "mutating c d bid nu r = Inr (d1, w, b1)" by blast
  from reassignment_after_validation[OF v this, of orgId] show ?thesis
    by (simp add: afterMutation_result)
qed

lemma map_filter_none: "(\<And>x. x \<in> set xs \<Longrightarrow> f x = None) \<Longrightarrow> List.map_filter f xs = []"
  by (induction xs) (auto simp: List.map_filter_def)

lemma map_filter_append: "List.map_filter f (xs @ ys) = List.map_filter f xs @ List.map_filter f ys"
  by (simp add: List.map_filter_def)

lemma migrateReminders_workflow:
  "e \<in> set (migrateReminders evt v et bu nu rms) \<Longrightarrow> isWorkflowEffect e"
  by (induction rms) (auto split: option.splits)

lemma handleWorkflowsUpdate_workflow:
  "e \<in> set (handleWorkflowsUpdate c d b nu evt et orgId) \<Longrightarrow> isWorkflowEffect e"
  by (auto simp: handleWorkflowsUpdate_def Let_def dest: migrateReminders_workflow)

lemma handleWorkflowsUpdate_nonempty: "handleWorkflowsUpdate c d b nu evt et orgId \<noteq> []"
  by (simp add: handleWorkflowsUpdate_def Let_def)

lemma workflow_effect_no_reschedule: "isWorkflowEffect e \<Longrightarrow> rescheduleResult c e = None"
  by (cases e) simp_all

lemma mutating_effects:
  assumes "mutating c d bid nu r = Inr (d1, w, b1)" and "e \<in> set w"
  shows "isStorageWrite e \<and> \<not> isWorkflowEffect e \<and> rescheduleResult c e = None"
  using assms
  by (auto simp: mutating_def Let_def split: if_splits sum.splits option.splits)

lemma afterMutation_db:
  "out_db (afterMutation c bid nu orgId r d1 w b1) =
     replaceBookingReferences d1 bid
       (reschedule c (host_user (res_newUserHost r))
          (credential_findMany d1 (user_id (host_user (res_newUserHost r))))
          (buildEvt c b1 (res_eventType r) (res_eventTypeHosts r) (host_user (res_newUserHost r))
             (res_originalOrganizer r) nu (hasOrganizerChanged_of r nu))
          (booking_uid b1) (hasOrganizerChanged_of r nu)
          (case (if hasOrganizerChanged_of r nu
                 then destinationCalendar_findFirst d1 (user_id (res_originalOrganizer r))
                 else None) of None \<Rightarrow> [] | Some dc \<Rightarrow> [dc]))"
  by (simp add: afterMutation_eq Let_def)

lemma afterMutation_effects:
  "out_effects (afterMutation c bid nu orgId r d1 w b1) =
     w @ [EventManager_reschedule (host_user (res_newUserHost r))
            (credential_findMany d1 (user_id (host_user (res_newUserHost r))))
            (buildEvt c b1 (res_eventType r) (res_eventTypeHosts r) (host_user (res_newUserHost r))
               (res_originalOrganizer r) nu (hasOrganizerChanged_of r nu))
            (booking_uid b1) (hasOrganizerChanged_of r nu)
            (case (if hasOrganizerChanged_of r nu
                   then destinationCalendar_findFirst d1 (user_id (res_originalOrganizer r))
                   else None) of None \<Rightarrow> [] | Some dc \<Rightarrow> [dc]),
          ReplaceBookingReferences bid
            (reschedule c (host_user (res_newUserHost r))
               (credential_findMany d1 (user_id (host_user (res_newUserHost r))))
               (buildEvt c b1 (res_eventType r) (res_eventTypeHosts r) (host_user (res_newUserHost r))
                  (res_originalOrganizer r) nu (hasOrganizerChanged_of r nu))
               (booking_uid b1) (hasOrganizerChanged_of r nu)
               (case (if hasOrganizerChanged_of r nu
                      then destinationCalendar_findFirst d1 (user_id (res_originalOrganizer r))
                      else None) of None \<Rightarrow> [] | Some dc \<Rightarrow> [dc])),
          SendRoundRobinScheduledEmailsAndSMS
            (buildEvt c b1 (res_eventType r) (res_eventTypeHosts r) (host_user (res_newUserHost r))
               (res_originalOrganizer r) nu (hasOrganizerChanged_of r nu))
            [recipient_of c (host_user (res_newUserHost r))],
          SendRoundRobinCancelledEmailsAndSMS
            (cancelledEvt_of
               (buildEvt c b1 (res_eventType r) (res_eventTypeHosts r) (host_user (res_newUserHost r))
                  (res_originalOrganizer r) nu (hasOrganizerChanged_of r nu))
               (res_originalOrganizer r))
            [recipient_of c (res_originalOrganizer r)] (et_metadata (res_eventType r))]
       @ (if hasOrganizerChanged_of r nu
          then handleWorkflowsUpdate c (out_db (afterMutation c bid nu orgId r d1 w b1)) b1
                 (host_user (res_newUserHost r))
                 (buildEvt c b1 (res_eventType r) (res_eventTypeHosts r) (host_user (res_newUserHost r))
                    (res_originalOrganizer r) nu (hasOrganizerChanged_of r nu))
                 (res_eventType r) orgId
          else [])"
  by (simp add: afterMutation_eq Let_def)

lemmas run_defs =
  roundRobinManualReassignment_def validating_def mutating_def afterMutation_eq
  hasOrganizerChanged_of_def truthy_number_def booking_update_def attendee_update_def
  replaceBookingReferences_def referencesOf_def storedBooking_def
  credential_findMany_def destinationCalendar_findFirst_def
  buildEvt_def attendeeList_of_def organizer_of_def recipient_of_def cancelledEvt_of_def
  newBookingTitle_of_def bookingLocation_of_def array_includes_def object_literal_def fresh_ref_def
  or_default_def nullish_default_def or_undefined_def getTranslation_def
  handleWorkflowsUpdate_def workflowReminder_findMany_def pendingHostEmailReminder_def
  workflow_findMany_def newEventWorkflow_def replacementFor_def

section \<open>Claims about the organizer and the references\<close>

text \<open>
  C1. Take a successful reassignment of a booking whose event type loads. The target
  host exists and is not Fixed. If some host of the event type is Fixed, the organizer
  of the meeting as stored after the call (its user id and its user) is the one stored
  before. If no host is Fixed, the stored organizer id is the target host's id and the
  stored organizer is the target host's user. The booking the call returns agrees with the
  stored one on both.
\<close>

theorem organizer_after_successful_reassignment:
  assumes b: "booking_findUnique d bookingId = Some b"
    and etid: "booking_eventTypeId b = Some eventTypeId"
    and et: "getEventTypesFromDB d eventTypeId = Some eventType"
    and ok: "out_result (roundRobinManualReassignment c d bookingId newUserId orgId) = Inr b'"
  shows "\<exists>targetHost stored.
           newUserHost_of (eventTypeHosts_of eventType) newUserId = Some targetHost \<and>
           \<not> host_isFixed targetHost \<and>
           storedBooking (out_db (roundRobinManualReassignment c d bookingId newUserId orgId)) bookingId
             = Some stored \<and>
           booking_userId b' = booking_userId stored \<and> booking_user b' = booking_user stored \<and>
           (if list_ex host_isFixed (eventTypeHosts_of eventType)
            then booking_userId stored = booking_userId b \<and> booking_user stored = booking_user b
            else booking_userId stored = Some (user_id (host_user targetHost)) \<and>
                 booking_user stored = Some (host_user targetHost))"
proof -
  from reassignment_successD[OF ok] obtain r d1 w where
    v: "validating d bookingId newUserId = Inr r" and
    m: "mutating c d bookingId newUserId r = Inr (d1, w, b')" and
    eq: "roundRobinManualReassignment c d bookingId newUserId orgId =
           afterMutation c bookingId newUserId orgId r d1 w b'"
    by blast
  from validating_InrD[OF v] b etid et have
    rb: "res_booking r = b" and
    fh: "res_fixedHost r = fixedHost_of (eventTypeHosts_of eventType)" and
    h: "newUserHost_of (eventTypeHosts_of eventType) newUserId = Some (res_newUserHost r)" and
    nf: "\<not> host_isFixed (res_newUserHost r)"
    by auto
  let ?h = "res_newUserHost r"
  from newUserHost_ofD[OF h] have hin: "?h \<in> set (eventTypeHosts_of eventType)"
    and hid: "user_id (host_user ?h) = newUserId" by simp_all
  from loaded_host_user[OF et hin] hid
  have fu: "findUser d newUserId = Some (host_user ?h)" by simp
  have stored: "storedBooking (out_db (roundRobinManualReassignment c d bookingId newUserId orgId)) bookingId
                  = booking_findUnique d1 bookingId"
    by (simp add: eq storedBooking_def afterMutation_stored)
  have same_if_unchanged:
    "booking_userId b = Some newUserId \<Longrightarrow> booking_user b = Some (host_user ?h)"
    using booking_findUnique_row[OF b] fu by (auto simp: selectBooking_def)
  show ?thesis
  proof (cases "hasOrganizerChanged_of r newUserId")
    case True
    from mutating_changed[OF v True, of c] m obtain b1 where
      s1: "booking_findUnique d1 bookingId = Some b1" and
      b1: "b1 = b'" "booking_userId b1 = Some newUserId" "booking_user b1 = Some (host_user ?h)"
      by (auto simp: rb)
    from True have "\<not> list_ex host_isFixed (eventTypeHosts_of eventType)"
      by (simp add: hasOrganizerChanged_of_def fh fixedHost_of_None_iff)
    with h nf stored s1 b1 hid show ?thesis by auto
  next
    case False
    have unchanged: "\<exists>s. booking_findUnique d1 bookingId = Some s \<and>
            booking_userId s = booking_userId b \<and> booking_user s = booking_user b \<and> b' = b"
    proof (cases "res_currentRRHost r")
      case None
      from mutating_noop[OF False None, of c d bookingId] m b rb show ?thesis by auto
    next
      case (Some a)
      from mutating_substitute[OF v False Some, of c] m obtain n e tz l where
        "attendee_update d (attendee_id a) n e tz l = Inr d1" and "b' = b"
        by (auto simp: rb)
      with booking_findUnique_after_attendee_update[OF this(1) b] show ?thesis by simp
    qed
    then obtain s where s: "booking_findUnique d1 bookingId = Some s"
      "booking_userId s = booking_userId b" "booking_user s = booking_user b" "b' = b" by blast
    show ?thesis
    proof (cases "list_ex host_isFixed (eventTypeHosts_of eventType)")
      case True
      with h nf stored s show ?thesis by auto
    next
      case nofixed: False
      with False have "booking_userId b = Some newUserId"
        by (simp add: hasOrganizerChanged_of_def fh fixedHost_of_None_iff rb)
      with same_if_unchanged h nf stored s nofixed hid show ?thesis by auto
    qed
  qed
qed

theorem organizer_after_successful_reassignment_witness:
  "(\<exists>b'. out_result (roundRobinManualReassignment example_deps example_db 101 3 None) = Inr b') \<and>
   \<not> list_ex host_isFixed (eventTypeHosts_of (the (getEventTypesFromDB example_db 11))) \<and>
   map_option booking_userId
     (storedBooking (out_db (roundRobinManualReassignment example_deps example_db 101 3 None)) 101)
     = Some (Some 3)"
proof -
  define b where "b = the (booking_findUnique example_db 101)"
  define et where "et = the (getEventTypesFromDB example_db 11)"
  have 1: "booking_findUnique example_db 101 = Some b"
    unfolding b_def by (simp add: example_defs query_defs)
  have 2: "booking_eventTypeId b = Some 11"
    unfolding b_def by (simp add: example_defs query_defs)
  have 3: "getEventTypesFromDB example_db 11 = Some et"
    unfolding et_def by (simp add: example_defs query_defs)
  have ex: "\<exists>b'. out_result (roundRobinManualReassignment example_deps example_db 101 3 None) = Inr b'"
    by (simp add: run_defs example_defs query_defs Let_def)
  then obtain b' where
    ok: "out_result (roundRobinManualReassignment example_deps example_db 101 3 None) = Inr b'"
    by blast
  have nofixed: "\<not> list_ex host_isFixed (eventTypeHosts_of et)"
    unfolding et_def by (simp add: example_defs query_defs)
  from organizer_after_successful_reassignment[OF 1 2 3 ok] nofixed
  obtain targetHost stored where
    t: "newUserHost_of (eventTypeHosts_of et) 3 = Some targetHost" and
    s: "storedBooking (out_db (roundRobinManualReassignment example_deps example_db 101 3 None)) 101
          = Some stored"
       "booking_userId stored = Some (user_id (host_user targetHost))"
    by auto
  from newUserHost_ofD[OF t] have "user_id (host_user targetHost) = 3" by simp
  with s ex nofixed show ?thesis unfolding et_def by simp
qed

text \<open>
  C2. After a successful reassignment the calendar sync has been called exactly once, and
  the references stored for the meeting are the list that call returned: what was stored
  for the meeting before is gone and nothing is merged into the result. The reference
  replacement is the one modelled from the spec.
\<close>

theorem stored_references_are_the_sync_result:
  assumes ok: "out_result (roundRobinManualReassignment c d bookingId newUserId orgId) = Inr b'"
  shows "List.map_filter (rescheduleResult c)
           (out_effects (roundRobinManualReassignment c d bookingId newUserId orgId)) =
         [referencesOf (out_db (roundRobinManualReassignment c d bookingId newUserId orgId)) bookingId]"
proof -
  from reassignment_successD[OF ok] obtain r d1 w where
    m: "mutating c d bookingId newUserId r = Inr (d1, w, b')" and
    eq: "roundRobinManualReassignment c d bookingId newUserId orgId =
           afterMutation c bookingId newUserId orgId r d1 w b'"
    by blast
  have w: "List.map_filter (rescheduleResult c) w = []"
    by (rule map_filter_none) (use mutating_effects[OF m] in blast)
  have wf: "List.map_filter (rescheduleResult c)
              (if hasOrganizerChanged_of r newUserId
               then handleWorkflowsUpdate c (out_db (afterMutation c bookingId newUserId orgId r d1 w b'))
                      b' (host_user (res_newUserHost r))
                      (buildEvt c b' (res_eventType r) (res_eventTypeHosts r)
                         (host_user (res_newUserHost r)) (res_originalOrganizer r) newUserId
                         (hasOrganizerChanged_of r newUserId))
                      (res_eventType r) orgId
               else []) = []"
    by (rule map_filter_none)
       (auto split: if_splits dest!: handleWorkflowsUpdate_workflow workflow_effect_no_reschedule)
  show ?thesis
    unfolding eq afterMutation_effects map_filter_append w wf
    by (simp add: afterMutation_db referencesOf_replace List.map_filter_def)
qed

theorem stored_references_are_the_sync_result_witness:
  "(\<exists>b'. out_result (roundRobinManualReassignment example_deps example_db 101 3 None) = Inr b') \<and>
   referencesOf example_db 101 =
     [\<lparr> reference_type = ''google_calendar'', reference_uid = ''old-101'' \<rparr>,
      \<lparr> reference_type = ''zoom_video'', reference_uid = ''old-zoom-101'' \<rparr>] \<and>
   List.map_filter (rescheduleResult example_deps)
     (out_effects (roundRobinManualReassignment example_deps example_db 101 3 None)) =
     [[\<lparr> reference_type = ''google_calendar'', reference_uid = ''uid-101-u2@example.com'' \<rparr>]] \<and>
   referencesOf (out_db (roundRobinManualReassignment example_deps example_db 101 3 None)) 101 =
     [\<lparr> reference_type = ''google_calendar'', reference_uid = ''uid-101-u2@example.com'' \<rparr>]"
proof -
  have ex: "\<exists>b'. out_result (roundRobinManualReassignment example_deps example_db 101 3 None) = Inr b'"
    by (simp add: run_defs example_defs query_defs Let_def)
  then obtain b' where
    ok: "out_result (roundRobinManualReassignment example_deps example_db 101 3 None) = Inr b'"
    by blast
  have old: "referencesOf example_db 101 =
     [\<lparr> reference_type = ''google_calendar'', reference_uid = ''old-101'' \<rparr>,
      \<lparr> reference_type = ''zoom_video'', reference_uid = ''old-zoom-101'' \<rparr>]"
    by (simp add: referencesOf_def example_db_def)
  have new: "referencesOf (out_db (roundRobinManualReassignment example_deps example_db 101 3 None)) 101 =
     [\<lparr> reference_type = ''google_calendar'', reference_uid = ''uid-101-u2@example.com'' \<rparr>]"
    by (simp add: run_defs example_defs query_defs Let_def)
  from stored_references_are_the_sync_result[OF ok] ex old new show ?thesis by simp
qed

section \<open>Claims about the attendee substitution\<close>

lemma workflow_effects_only_when_changed:
  assumes v: "validating d bid nu = Inr r" and m: "mutating c d bid nu r = Inr (d1, w, b1)"
  shows "filter isWorkflowEffect (out_effects (afterMutation c bid nu orgId r d1 w b1)) =
           (if hasOrganizerChanged_of r nu
            then handleWorkflowsUpdate c (out_db (afterMutation c bid nu orgId r d1 w b1)) b1
                   (host_user (res_newUserHost r))
                   (buildEvt c b1 (res_eventType r) (res_eventTypeHosts r)
                      (host_user (res_newUserHost r)) (res_originalOrganizer r) nu
                      (hasOrganizerChanged_of r nu))
                   (res_eventType r) orgId
            else [])"
proof -
  have w: "filter isWorkflowEffect w = []"
    using mutating_effects[OF m] by (auto simp: filter_empty_conv)
  have h: "filter isWorkflowEffect (handleWorkflowsUpdate c d' b' u evt et orgId) =
             handleWorkflowsUpdate c d' b' u evt et orgId" for d' b' u evt et
    by (rule filter_True) (auto dest: handleWorkflowsUpdate_workflow)
  show ?thesis
    unfolding afterMutation_effects filter_append w by (simp add: h)
qed



section \<open>Claims about reassigning to the current organizer\<close>

text \<open>
  C10, as amended. No host of the event type is Fixed, no attendee of the booking has a
  round-robin host's email, the target is the booking's current organizer, and that user
  is one of the event type's hosts. Then the call succeeds and returns the booking as it
  was loaded. Only the references of the meeting are written; the meeting read back from
  storage is the one loaded, so organizer, title and attendees are unchanged. The effects
  are, in this order and no others: the calendar sync, the reference replacement, the
  scheduled notification and the cancelled notification, both sent to the organizer and
  carrying the same event. No workflow call is made.
\<close>

theorem self_reassignment_syncs_and_notifies:
  fixes c :: deps and orgId :: "int option"
  assumes b: "booking_findUnique d bookingId = Some b"
    and org: "booking_user b = Some organizer"
    and etid: "booking_eventTypeId b = Some eventTypeId" and nz: "eventTypeId \<noteq> 0"
    and et: "getEventTypesFromDB d eventTypeId = Some eventType"
    and nofixed: "fixedHost_of (eventTypeHosts_of eventType) = None"
    and norr: "currentRRHost_of (eventTypeHosts_of eventType) (booking_attendees b) = None"
    and self: "booking_userId b = Some newUserId"
    and host: "newUserHost_of (eventTypeHosts_of eventType) newUserId = Some h"
  defines "evt \<equiv> buildEvt c b eventType (eventTypeHosts_of eventType) organizer organizer newUserId False"
    and "creds \<equiv> credential_findMany d (user_id organizer)"
  defines "refs \<equiv> reschedule c organizer creds evt (booking_uid b) False []"
  shows "host_user h = organizer \<and>
         roundRobinManualReassignment c d bookingId newUserId orgId =
           \<lparr> out_db = replaceBookingReferences d bookingId refs,
             out_effects =
               [EventManager_reschedule organizer creds evt (booking_uid b) False [],
                ReplaceBookingReferences bookingId refs,
                SendRoundRobinScheduledEmailsAndSMS evt [recipient_of c organizer],
                SendRoundRobinCancelledEmailsAndSMS evt [recipient_of c organizer]
                  (et_metadata eventType)],
             out_result = Inr b \<rparr> \<and>
         storedBooking (replaceBookingReferences d bookingId refs) bookingId = Some b"
proof -
  from newUserHost_ofD[OF host] have hin: "h \<in> set (eventTypeHosts_of eventType)"
    and hid: "user_id (host_user h) = newUserId" by simp_all
  from loaded_host_user[OF et hin] hid
  have fu: "findUser d newUserId = Some (host_user h)" by simp
  have same: "host_user h = organizer"
    using booking_findUnique_row[OF b] fu self org by (auto simp: selectBooking_def)
  from nofixed hin have nf: "\<not> host_isFixed h"
    by (auto simp: fixedHost_of_None_iff list_ex_iff)
  let ?r = "\<lparr> res_booking = b, res_originalOrganizer = organizer, res_eventType = eventType,
              res_eventTypeHosts = eventTypeHosts_of eventType,
              res_fixedHost = fixedHost_of (eventTypeHosts_of eventType),
              res_currentRRHost = currentRRHost_of (eventTypeHosts_of eventType) (booking_attendees b),
              res_newUserHost = h \<rparr>"
  have v: "validating d bookingId newUserId = Inr ?r"
    by (rule validating_InrI[OF b org etid nz et host nf])
  have nch: "\<not> hasOrganizerChanged_of ?r newUserId"
    by (simp add: hasOrganizerChanged_of_def self)
  have m: "mutating c d bookingId newUserId ?r = Inr (d, [], b)"
    using mutating_noop[OF nch, of c d bookingId] norr by simp
  have eq: "roundRobinManualReassignment c d bookingId newUserId orgId =
              afterMutation c bookingId newUserId orgId ?r d [] b"
    by (rule reassignment_after_validation[OF v m])
  have cancelled: "cancelledEvt_of evt organizer = evt"
    by (simp add: cancelledEvt_of_def evt_def buildEvt_def)
  have "afterMutation c bookingId newUserId orgId ?r d [] b =
           \<lparr> out_db = replaceBookingReferences d bookingId refs,
             out_effects =
               [EventManager_reschedule organizer creds evt (booking_uid b) False [],
                ReplaceBookingReferences bookingId refs,
                SendRoundRobinScheduledEmailsAndSMS evt [recipient_of c organizer],
                SendRoundRobinCancelledEmailsAndSMS evt [recipient_of c organizer]
                  (et_metadata eventType)],
             out_result = Inr b \<rparr>"
    using nch cancelled unfolding afterMutation_eq Let_def
    by (simp add: same refs_def creds_def evt_def)
  with eq same b show ?thesis
    by (simp add: storedBooking_def booking_findUnique_replace)
qed

theorem self_reassignment_syncs_and_notifies_witness:
  "booking_userId (the (booking_findUnique example_db 101)) = Some 2 \<and>
   fixedHost_of (eventTypeHosts_of (the (getEventTypesFromDB example_db 11))) = None \<and>
   currentRRHost_of (eventTypeHosts_of (the (getEventTypesFromDB example_db 11)))
     (booking_attendees (the (booking_findUnique example_db 101))) = None \<and>
   out_result (roundRobinManualReassignment example_deps example_db 101 2 None) =
     Inr (the (booking_findUnique example_db 101)) \<and>
   length (out_effects (roundRobinManualReassignment example_deps example_db 101 2 None)) = 4 \<and>
   storedBooking (out_db (roundRobinManualReassignment example_deps example_db 101 2 None)) 101 =
     Some (the (booking_findUnique example_db 101))"
proof -
  define b where "b = the (booking_findUnique example_db 101)"
  define et where "et = the (getEventTypesFromDB example_db 11)"
  define h where "h = the (newUserHost_of (eventTypeHosts_of et) 2)"
  have 1: "booking_findUnique example_db 101 = Some b"
    unfolding b_def by (simp add: example_defs query_defs)
  have 2: "booking_user b = Some (mkUser 2 ''u1@example.com'' ''Una'' [])"
    unfolding b_def by (simp add: example_defs query_defs)
  have 3: "booking_eventTypeId b = Some 11"
    unfolding b_def by (simp add: example_defs query_defs)
  have 4: "getEventTypesFromDB example_db 11 = Some et"
    unfolding et_def by (simp add: example_defs query_defs)
  have 5: "fixedHost_of (eventTypeHosts_of et) = None"
    unfolding et_def by (simp add: example_defs query_defs)
  have 6: "currentRRHost_of (eventTypeHosts_of et) (booking_attendees b) = None"
    unfolding et_def b_def by (simp add: example_defs query_defs)
  have 7: "booking_userId b = Some 2"
    unfolding b_def by (simp add: example_defs query_defs)
  have 8: "newUserHost_of (eventTypeHosts_of et) 2 = Some h"
    unfolding h_def et_def by (simp add: example_defs query_defs)
  from self_reassignment_syncs_and_notifies[OF 1 2 3 _ 4 5 6 7 8, of example_deps None]
  show ?thesis
    using 5 6 7 unfolding et_def[symmetric] b_def[symmetric] by simp
qed

text \<open>
  C10 as the claim states it fails: the organizer of booking 102 is user 4, who is not a
  host of its event type. The event type has no Fixed host, no attendee has a round-robin
  host's email, the target is the current organizer, and the call fails.
\<close>

theorem self_reassignment_counterexample:
  "fixedHost_of (eventTypeHosts_of (the (getEventTypesFromDB example_db 11))) = None \<and>
   currentRRHost_of (eventTypeHosts_of (the (getEventTypesFromDB example_db 11)))
     (booking_attendees (the (booking_findUnique example_db 102))) = None \<and>
   booking_eventTypeId (the (booking_findUnique example_db 102)) = Some 11 \<and>
   booking_userId (the (booking_findUnique example_db 102)) = Some 4 \<and>
   out_result (roundRobinManualReassignment example_deps example_db 102 4 None) =
     Inl (Error ''invalid_round_robin_host'')"
  by (simp add: run_defs example_defs query_defs Let_def)

section \<open>Claims about the calendar-event representation\<close>

lemma ref_below_fresh: "y \<in> set live \<Longrightarrow> ref y < fresh_ref live"
proof -
  assume "y \<in> set live"
  then have "ref y \<in> set (0 # map ref live)" by simp
  then have "ref y \<le> Max (set (0 # map ref live))" by (intro Max_ge) simp_all
  moreover have "fold max (map ref live) 0 = Max (set (0 # map ref live))"
    by (rule Max.set_eq_fold[symmetric])
  ultimately show ?thesis by (simp add: fresh_ref_def)
qed

lemma literal_not_included: "\<not> array_includes xs (object_literal xs c)"
  using ref_below_fresh[of _ xs] by (fastforce simp: array_includes_def object_literal_def list_ex_iff)

text \<open>
  The location the Mutating step resolves is the booking's stored location for every
  event type and every new organizer: the array never contains the object the literal
  creates, so the branch that reads the organizer's default conferencing link is dead.
\<close>

lemma bookingLocation_of_is_stored_location:
  "bookingLocation_of c b eventType newUser = booking_location b"
  by (simp add: bookingLocation_of_def literal_not_included)

text \<open>
  C9 at a concrete input. Event type 11 lists the location type the collaborators name
  as the organizer's default conferencing app, the metadata of user 3 parses to a default
  conferencing link, and the booking's location is a Zoom integration. The location
  resolved for the reassignment of booking 101 to user 3 is the Zoom integration, and the
  new title is computed from it; the stored location is what it was.
\<close>

theorem default_conferencing_link_is_not_used:
  "map (location_type \<circ> contents) (et_locations (the (getEventTypesFromDB example_db 11)))
     = [OrganizerDefaultConferencingAppType example_deps] \<and>
   map_option (\<lambda>m. map_option appLink (defaultConferencingApp m))
     (userMetadataSafeParse example_deps (user_metadata (the (findUser example_db 3))))
     = Some (Some (Some ''https://meet.example.com/ugo'')) \<and>
   bookingLocation_of example_deps (the (booking_findUnique example_db 101))
     (the (getEventTypesFromDB example_db 11)) (the (findUser example_db 3))
     = Some ''integrations:zoom'' \<and>
   map_option booking_title
     (storedBooking (out_db (roundRobinManualReassignment example_deps example_db 101 3 None)) 101)
     = Some ''Intro with Ugo at integrations:zoom'' \<and>
   map_option booking_location
     (storedBooking (out_db (roundRobinManualReassignment example_deps example_db 101 3 None)) 101)
     = Some (Some ''integrations:zoom'')"
  by (simp add: run_defs example_defs query_defs Let_def)

text \<open>
  When the organizer changes, the event handed to the calendar sync is built from the
  booking that the update returned, which is the booking as stored: its title is the
  stored title and its organizer is the new organizer.
\<close>

lemma synced_event_when_organizer_changes:
  assumes b: "booking_findUnique d bookingId = Some b"
    and ok: "out_result (roundRobinManualReassignment c d bookingId newUserId orgId) = Inr b'"
    and changed: "booking_userId b' \<noteq> booking_userId b"
  shows "\<exists>evt newUser.
           List.map_filter rescheduledEvent
             (out_effects (roundRobinManualReassignment c d bookingId newUserId orgId)) = [evt] \<and>
           storedBooking (out_db (roundRobinManualReassignment c d bookingId newUserId orgId)) bookingId
             = Some b' \<and>
           booking_user b' = Some newUser \<and> user_id newUser = newUserId \<and>
           evt_title evt = booking_title b' \<and>
           evt_organizer evt = organizer_of newUser \<and>
           evt_attendees evt = attendeeList_of (booking_attendees b')"
proof -
  from reassignment_successD[OF ok] obtain r d1 w where
    v: "validating d bookingId newUserId = Inr r" and
    m: "mutating c d bookingId newUserId r = Inr (d1, w, b')" and
    eq: "roundRobinManualReassignment c d bookingId newUserId orgId =
           afterMutation c bookingId newUserId orgId r d1 w b'"
    by blast
  from validating_InrD[OF v] b obtain et where
    rb: "res_booking r = b" and
    h: "newUserHost_of (eventTypeHosts_of et) newUserId = Some (res_newUserHost r)"
    by auto
  have ch: "hasOrganizerChanged_of r newUserId"
  proof (rule ccontr)
    assume "\<not> hasOrganizerChanged_of r newUserId"
    with m have "b' = res_booking r"
      by (auto simp: mutating_def Let_def split: option.splits sum.splits)
    with rb changed show False by simp
  qed
  from mutating_changed[OF v ch, of c] m have
    s1: "booking_findUnique d1 bookingId = Some b'" and
    u: "booking_user b' = Some (host_user (res_newUserHost r))"
    by auto
  have w: "List.map_filter rescheduledEvent w = []"
    by (rule map_filter_none)
       (use m in \<open>auto simp: mutating_def Let_def split: if_splits sum.splits option.splits\<close>)
  have wf: "List.map_filter rescheduledEvent (handleWorkflowsUpdate c d' b'' nu evt et' orgId) = []"
    for d' b'' nu evt et'
  proof (rule map_filter_none)
    fix x assume "x \<in> set (handleWorkflowsUpdate c d' b'' nu evt et' orgId)"
    then have "isWorkflowEffect x" by (rule handleWorkflowsUpdate_workflow)
    then show "rescheduledEvent x = None" by (cases x) simp_all
  qed
  have evts: "List.map_filter rescheduledEvent
                (out_effects (roundRobinManualReassignment c d bookingId newUserId orgId)) =
              [buildEvt c b' (res_eventType r) (res_eventTypeHosts r) (host_user (res_newUserHost r))
                 (res_originalOrganizer r) newUserId True]"
    unfolding eq afterMutation_effects map_filter_append w
    using ch by (simp add: wf)
  from newUserHost_ofD[OF h] have "user_id (host_user (res_newUserHost r)) = newUserId" by simp
  with evts s1 u show ?thesis
    by (simp add: eq storedBooking_def afterMutation_stored buildEvt_def)
qed

text \<open>
  C3 at a concrete input. Booking 100 is reassigned from host 2 to host 3 while the Fixed
  host stays its organizer. The attendee record of the meeting as stored after the call
  carries the email of host 3; the event handed to the calendar sync still lists the
  attendee with the email and name of host 2, because it is built from the booking
  loaded before the attendee update, and the returned booking lists it too.
\<close>

theorem synced_event_lists_the_replaced_attendee:
  "map_option (map attendee_email \<circ> booking_attendees)
     (storedBooking (out_db (roundRobinManualReassignment example_deps example_db 100 3 None)) 100)
     = Some [''guest@example.com'', ''u2@example.com''] \<and>
   map (map person_email \<circ> evt_attendees)
     (List.map_filter rescheduledEvent
        (out_effects (roundRobinManualReassignment example_deps example_db 100 3 None)))
     = [[''guest@example.com'', ''u1@example.com'']] \<and>
   map (map person_name \<circ> evt_attendees)
     (List.map_filter rescheduledEvent
        (out_effects (roundRobinManualReassignment example_deps example_db 100 3 None)))
     = [[''Guest'', ''Una'']] \<and>
   (case out_result (roundRobinManualReassignment example_deps example_db 100 3 None) of
      Inl e \<Rightarrow> []
    | Inr b' \<Rightarrow> map attendee_email (booking_attendees b'))
     = [''guest@example.com'', ''u1@example.com'']"
  by (simp add: run_defs example_defs query_defs Let_def)

section \<open>Claims about the workflow migration\<close>

lemma pendingHostEmailReminderD:
  assumes "pendingHostEmailReminder uid rm"
  shows "\<exists>st w. reminder_workflowStep rm = Some st \<and> step_workflow st = Some w \<and>
           reminderTrigger rm = Some (wf_trigger w)"
  using assms
  by (auto simp: pendingHostEmailReminder_def reminderTrigger_def split: option.splits)

text \<open>
  For the reminders the query returns, the loop makes two calls per reminder, in the
  order of the reminders: the schedule call of its replacement, then its delete call.
\<close>

lemma migrateReminders_found:
  assumes "\<forall>rm \<in> set rms. pendingHostEmailReminder uid rm"
  shows "\<exists>reps.
           list_all2 (\<lambda>rm rep. reminderTrigger rm = Some (era_triggerEvent rep) \<and>
                               era_sendTo rep = user_email nu) rms reps \<and>
           migrateReminders evt v et bu nu rms =
             concat (map (\<lambda>(rm, rep). [ScheduleEmailReminder rep,
                                        DeleteScheduledEmailReminder (reminder_id rm)
                                          (reminder_referenceId rm)]) (zip rms reps))"
  using assms
proof (induction rms)
  case Nil
  then show ?case by simp
next
  case (Cons rm rms)
  then obtain reps where
    reps: "list_all2 (\<lambda>rm rep. reminderTrigger rm = Some (era_triggerEvent rep) \<and>
                               era_sendTo rep = user_email nu) rms reps"
      "migrateReminders evt v et bu nu rms =
         concat (map (\<lambda>(rm, rep). [ScheduleEmailReminder rep,
                                    DeleteScheduledEmailReminder (reminder_id rm)
                                      (reminder_referenceId rm)]) (zip rms reps))"
    by auto
  from Cons.prems have "pendingHostEmailReminder uid rm" by simp
  from pendingHostEmailReminderD[OF this] obtain st w where
    st: "reminder_workflowStep rm = Some st" "step_workflow st = Some w"
      "reminderTrigger rm = Some (wf_trigger w)"
    by blast
  let ?rep = "replacementFor evt v et bu nu st w"
  have "list_all2 (\<lambda>rm rep. reminderTrigger rm = Some (era_triggerEvent rep) \<and>
                            era_sendTo rep = user_email nu) (rm # rms) (?rep # reps)"
    using reps(1) st by (simp add: replacementFor_def)
  moreover have "migrateReminders evt v et bu nu (rm # rms) =
      concat (map (\<lambda>(rm, rep). [ScheduleEmailReminder rep,
                                 DeleteScheduledEmailReminder (reminder_id rm)
                                   (reminder_referenceId rm)]) (zip (rm # rms) (?rep # reps)))"
    using reps(2) st by simp
  ultimately show ?case by blast
qed

lemma hasReminderFor_pending:
  "rm \<in> set (sched_pending s) \<Longrightarrow> reminderTrigger rm = Some t \<Longrightarrow> hasReminderFor s sendTo t"
  by (auto simp: hasReminderFor_def list_ex_iff)

lemma foldl_other_effects:
  "\<forall>e \<in> set xs. \<not> isWorkflowEffect e \<Longrightarrow> foldl applyToScheduler s xs = s"
proof (induction xs arbitrary: s)
  case Nil
  then show ?case by simp
next
  case (Cons e xs)
  then have "applyToScheduler s e = s" by (cases e) simp_all
  with Cons show ?case by simp
qed

text \<open>
  Along the calls of the loop, a trigger that has a reminder keeps having one: the
  replacement is in place before the original goes.
\<close>

lemma migration_keeps_trigger_covered:
  assumes "list_all2 (\<lambda>rm rep. reminderTrigger rm = Some (era_triggerEvent rep) \<and>
                               era_sendTo rep = sendTo) rms reps"
    and "distinct (map reminder_id (sched_pending s))"
    and "set rms \<subseteq> set (sched_pending s)"
    and "distinct rms"
    and "hasReminderFor s sendTo t"
  shows "hasReminderFor
           (foldl applyToScheduler s
              (take n (concat (map (\<lambda>(rm, rep). [ScheduleEmailReminder rep,
                                                 DeleteScheduledEmailReminder (reminder_id rm)
                                                   (reminder_referenceId rm)]) (zip rms reps)))))
           sendTo t"
  using assms
proof (induction rms reps arbitrary: s n rule: list_all2_induct)
  case Nil
  then show ?case by simp
next
  case (Cons rm rms rep reps)
  let ?s1 = "applyToScheduler s (ScheduleEmailReminder rep)"
  let ?s2 = "applyToScheduler ?s1 (DeleteScheduledEmailReminder (reminder_id rm) (reminder_referenceId rm))"
  have cov1: "hasReminderFor ?s1 sendTo t"
    using Cons.prems(4) by (auto simp: hasReminderFor_def)
  have rm_in: "rm \<in> set (sched_pending s)" using Cons.prems(2) by simp
  have only_rm: "x = rm" if "x \<in> set (sched_pending s)" "reminder_id x = reminder_id rm" for x
    using that rm_in Cons.prems(1) by (auto simp: distinct_map dest: inj_onD)
  have cov2: "hasReminderFor ?s2 sendTo t"
  proof -
    from Cons.prems(4) consider
      (pending) x where "x \<in> set (sched_pending s)" "reminderTrigger x = Some t" |
      (scheduled) "list_ex (\<lambda>a. era_triggerEvent a = t \<and> era_sendTo a = sendTo) (sched_scheduled s)"
      by (auto simp: hasReminderFor_def list_ex_iff)
    then show ?thesis
    proof cases
      case pending
      show ?thesis
      proof (cases "reminder_id x = reminder_id rm")
        case True
        with only_rm pending have "reminderTrigger rm = Some t" by blast
        with Cons.hyps(1) have "era_triggerEvent rep = t \<and> era_sendTo rep = sendTo" by simp
        then show ?thesis by (auto simp: hasReminderFor_def)
      next
        case False
        with pending show ?thesis by (auto simp: hasReminderFor_def list_ex_iff)
      qed
    next
      case scheduled
      then show ?thesis by (auto simp: hasReminderFor_def list_ex_iff)
    qed
  qed
  have d2: "distinct (map reminder_id (sched_pending ?s2))"
    using Cons.prems(1) by (simp add: distinct_map_filter)
  have sub2: "set rms \<subseteq> set (sched_pending ?s2)"
  proof
    fix x assume x: "x \<in> set rms"
    with Cons.prems(2,3) have "x \<in> set (sched_pending s)" "x \<noteq> rm" by auto
    with only_rm show "x \<in> set (sched_pending ?s2)" by auto
  qed
  have dr: "distinct rms" using Cons.prems(3) by simp
  show ?case
  proof (cases n)
    case 0
    with Cons.prems(4) show ?thesis by simp
  next
    case (Suc k)
    show ?thesis
    proof (cases k)
      case 0
      with Suc cov1 show ?thesis by simp
    next
      case (Suc j)
      from Cons.IH[OF d2 sub2 dr cov2, of j] \<open>n = Suc k\<close> Suc show ?thesis by simp
    qed
  qed
qed

lemma workflowReminder_findMany_after:
  "workflowReminders d' = workflowReminders d \<Longrightarrow>
     workflowReminder_findMany d' uid = workflowReminder_findMany d uid"
  by (simp add: workflowReminder_findMany_def)

lemma afterMutation_workflowReminders:
  "workflowReminders (out_db (afterMutation c bid nu orgId r d1 w b1)) = workflowReminders d1"
  by (simp add: afterMutation_eq Let_def replaceBookingReferences_def)

text \<open>
  C7. Take a successful reassignment, with reminder ids unique in storage. Calls of the
  workflow migration are among its effects exactly when the organizer changed, that is,
  when the returned booking's organizer id differs from the loaded one. When it changed,
  the migration's calls are, for the pending host-email reminders of the meeting in
  their order, the schedule call of a replacement with the reminder's trigger addressed to
  the new organizer immediately followed by the delete call of that reminder, and then
  the call for the new-event workflows. On the scheduler modelled from the spec, after any
  number of the call's effects, every trigger for which a reminder was found still has a
  reminder: the original, or a replacement addressed to the returned booking's organizer.
\<close>

theorem workflow_migration_schedules_before_it_deletes:
  fixes c :: deps and orgId :: "int option"
  assumes b: "booking_findUnique d bookingId = Some b"
    and ok: "out_result (roundRobinManualReassignment c d bookingId newUserId orgId) = Inr b'"
    and pk: "distinct (map reminder_id (workflowReminders d))"
  defines "fx \<equiv> out_effects (roundRobinManualReassignment c d bookingId newUserId orgId)"
    and "found \<equiv> workflowReminder_findMany d (booking_uid b)"
  shows "(list_ex isWorkflowEffect fx \<longleftrightarrow> booking_userId b' \<noteq> booking_userId b) \<and>
         (\<exists>organizer. booking_user b' = Some organizer \<and>
            (booking_userId b' \<noteq> booking_userId b \<longrightarrow>
               user_id organizer = newUserId \<and>
               (\<exists>reps args.
                  list_all2 (\<lambda>rm rep. reminderTrigger rm = Some (era_triggerEvent rep) \<and>
                                      era_sendTo rep = user_email organizer) found reps \<and>
                  filter isWorkflowEffect fx =
                    concat (map (\<lambda>(rm, rep). [ScheduleEmailReminder rep,
                                               DeleteScheduledEmailReminder (reminder_id rm)
                                                 (reminder_referenceId rm)]) (zip found reps))
                    @ [ScheduleWorkflowReminders args])) \<and>
            (\<forall>n. \<forall>rm \<in> set found. \<forall>t. reminderTrigger rm = Some t \<longrightarrow>
               hasReminderFor
                 (foldl applyToScheduler \<lparr> sched_pending = found, sched_scheduled = [] \<rparr> (take n fx))
                 (user_email organizer) t))"
proof -
  from reassignment_successD[OF ok] obtain r d1 w where
    v: "validating d bookingId newUserId = Inr r" and
    m: "mutating c d bookingId newUserId r = Inr (d1, w, b')" and
    eq: "roundRobinManualReassignment c d bookingId newUserId orgId =
           afterMutation c bookingId newUserId orgId r d1 w b'"
    by blast
  from validating_InrD[OF v] b obtain et where
    rb: "res_booking r = b" and
    bu: "booking_user b = Some (res_originalOrganizer r)" and
    h: "newUserHost_of (eventTypeHosts_of et) newUserId = Some (res_newUserHost r)"
    by auto
  let ?nu = "host_user (res_newUserHost r)"
  let ?s0 = "\<lparr> sched_pending = found, sched_scheduled = [] \<rparr>"
  have wfx: "filter isWorkflowEffect fx =
               (if hasOrganizerChanged_of r newUserId
                then handleWorkflowsUpdate c (out_db (afterMutation c bookingId newUserId orgId r d1 w b'))
                       b' ?nu
                       (buildEvt c b' (res_eventType r) (res_eventTypeHosts r) ?nu
                          (res_originalOrganizer r) newUserId (hasOrganizerChanged_of r newUserId))
                       (res_eventType r) orgId
                else [])"
    unfolding fx_def eq by (rule workflow_effects_only_when_changed[OF v m])
  have ex_iff: "list_ex isWorkflowEffect fx \<longleftrightarrow> filter isWorkflowEffect fx \<noteq> []"
    by (auto simp: filter_empty_conv list_ex_iff)
  have dfound: "distinct (map reminder_id found)"
    unfolding found_def workflowReminder_findMany_def using pk by (rule distinct_map_filter)
  then have dfound': "distinct found" by (simp add: distinct_map)
  have start: "hasReminderFor ?s0 sendTo t" if "rm \<in> set found" "reminderTrigger rm = Some t"
    for rm t sendTo
    using that by (intro hasReminderFor_pending[of rm]) simp_all
  show ?thesis
  proof (cases "hasOrganizerChanged_of r newUserId")
    case False
    with m have same: "b' = b"
      by (auto simp: mutating_def Let_def rb split: option.splits sum.splits)
    from False wfx have none: "filter isWorkflowEffect fx = []" by simp
    then have "\<forall>e \<in> set (take n fx). \<not> isWorkflowEffect e" for n
      by (auto simp: filter_empty_conv dest: in_set_takeD)
    then have "foldl applyToScheduler ?s0 (take n fx) = ?s0" for n
      by (rule foldl_other_effects)
    with start none same bu ex_iff show ?thesis by auto
  next
    case True
    from mutating_changed[OF v True, of c] m have
      u: "booking_user b' = Some ?nu" and
      uid: "booking_uid b' = booking_uid b" and
      id': "booking_userId b' = Some newUserId" and
      wr1: "workflowReminders d1 = workflowReminders d" and
      w1: "\<forall>e \<in> set w. \<not> isWorkflowEffect e"
      by (auto simp: rb)
    from True have neq: "booking_userId b' \<noteq> booking_userId b"
      by (auto simp: hasOrganizerChanged_of_def rb id')
    from newUserHost_ofD[OF h] have nuid: "user_id ?nu = newUserId" by simp
    let ?d' = "out_db (afterMutation c bookingId newUserId orgId r d1 w b')"
    let ?evt = "buildEvt c b' (res_eventType r) (res_eventTypeHosts r) ?nu
                  (res_originalOrganizer r) newUserId True"
    have fm: "workflowReminder_findMany ?d' (booking_uid b') = found"
      unfolding found_def uid
      by (rule workflowReminder_findMany_after) (simp add: afterMutation_workflowReminders wr1)
    have allp: "\<forall>rm \<in> set found. pendingHostEmailReminder (booking_uid b) rm"
      by (simp add: found_def workflowReminder_findMany_def)
    from migrateReminders_found[OF allp, of ?nu ?evt "getVideoCallUrlFromCalEvent c ?evt"
        "res_eventType r" "getBookerBaseUrl c orgId"]
    obtain reps where
      reps: "list_all2 (\<lambda>rm rep. reminderTrigger rm = Some (era_triggerEvent rep) \<and>
                                 era_sendTo rep = user_email ?nu) found reps" and
      mig: "migrateReminders ?evt (getVideoCallUrlFromCalEvent c ?evt) (res_eventType r)
              (getBookerBaseUrl c orgId) ?nu found =
            concat (map (\<lambda>(rm, rep). [ScheduleEmailReminder rep,
                                       DeleteScheduledEmailReminder (reminder_id rm)
                                         (reminder_referenceId rm)]) (zip found reps))"
      by blast
    let ?mig = "concat (map (\<lambda>(rm, rep). [ScheduleEmailReminder rep,
                                       DeleteScheduledEmailReminder (reminder_id rm)
                                         (reminder_referenceId rm)]) (zip found reps))"
    obtain args where
      hw: "handleWorkflowsUpdate c ?d' b' ?nu ?evt (res_eventType r) orgId =
             ?mig @ [ScheduleWorkflowReminders args]"
      by (simp add: handleWorkflowsUpdate_def Let_def fm mig)
    from wfx True hw have shape: "filter isWorkflowEffect fx = ?mig @ [ScheduleWorkflowReminders args]"
      by simp
    obtain pre where
      fx: "fx = pre @ ?mig @ [ScheduleWorkflowReminders args]" and
      pre: "\<forall>e \<in> set pre. \<not> isWorkflowEffect e"
    proof
      let ?pre = "w @ take 4 (drop (length w) fx)"
      show "fx = ?pre @ ?mig @ [ScheduleWorkflowReminders args]"
        unfolding fx_def eq afterMutation_effects using True hw by simp
      show "\<forall>e \<in> set ?pre. \<not> isWorkflowEffect e"
        unfolding fx_def eq afterMutation_effects using w1 by auto
    qed
    have covered: "hasReminderFor (foldl applyToScheduler ?s0 (take n fx)) (user_email ?nu) t"
      if "rm \<in> set found" "reminderTrigger rm = Some t" for n rm t
    proof -
      have s0: "hasReminderFor ?s0 (user_email ?nu) t" using that by (rule start)
      have p: "foldl applyToScheduler ?s0 (take n pre) = ?s0"
        by (rule foldl_other_effects) (use pre in \<open>auto dest: in_set_takeD\<close>)
      have tail: "foldl applyToScheduler s (take k [ScheduleWorkflowReminders args]) = s" for s k
        by (cases k) simp_all
      have "foldl applyToScheduler ?s0 (take n fx) =
              foldl applyToScheduler ?s0 (take (n - length pre) ?mig)"
        unfolding fx by (simp add: p tail)
      moreover have "hasReminderFor (foldl applyToScheduler ?s0 (take (n - length pre) ?mig))
                       (user_email ?nu) t"
        by (rule migration_keeps_trigger_covered[OF reps _ _ dfound' s0]) (simp_all add: dfound)
      ultimately show ?thesis by simp
    qed
    from neq ex_iff shape u nuid reps covered show ?thesis
      by (intro conjI exI[of _ ?nu]) (auto intro!: exI[of _ reps] exI[of _ args])
  qed
qed

theorem workflow_migration_schedules_before_it_deletes_witness:
  "distinct (map reminder_id (workflowReminders example_db)) \<and>
   map reminder_id
     (workflowReminder_findMany example_db (booking_uid (the (booking_findUnique example_db 101))))
     = [901, 902] \<and>
   (\<exists>b'. out_result (roundRobinManualReassignment example_deps example_db 101 3 None) = Inr b' \<and>
         booking_userId b' \<noteq> booking_userId (the (booking_findUnique example_db 101))) \<and>
   list_ex isWorkflowEffect
     (out_effects (roundRobinManualReassignment example_deps example_db 101 3 None)) \<and>
   hasReminderFor
     (foldl applyToScheduler
        \<lparr> sched_pending =
            workflowReminder_findMany example_db
              (booking_uid (the (booking_findUnique example_db 101))),
          sched_scheduled = [] \<rparr>
        (take 7 (out_effects (roundRobinManualReassignment example_deps example_db 101 3 None))))
     ''u2@example.com'' BEFORE_EVENT"
proof -
  define b where "b = the (booking_findUnique example_db 101)"
  have 1: "booking_findUnique example_db 101 = Some b"
    unfolding b_def by (simp add: example_defs query_defs)
  have pk: "distinct (map reminder_id (workflowReminders example_db))"
    by (simp add: example_defs)
  have found: "workflowReminder_findMany example_db (booking_uid b) =
                 [mkReminder 901 ''uid-101'' BEFORE_EVENT, mkReminder 902 ''uid-101'' AFTER_EVENT]"
    unfolding b_def
    by (simp add: example_defs query_defs workflowReminder_findMany_def pendingHostEmailReminder_def)
  have ids: "map reminder_id (workflowReminder_findMany example_db (booking_uid b)) = [901, 902]"
    unfolding found by (simp add: mkReminder_def)
  have tr: "reminderTrigger (mkReminder 901 ''uid-101'' BEFORE_EVENT) = Some BEFORE_EVENT"
    by (simp add: reminderTrigger_def mkReminder_def)
  have ex: "\<exists>b'. out_result (roundRobinManualReassignment example_deps example_db 101 3 None) = Inr b' \<and>
                 booking_userId b' = Some 3 \<and>
                 booking_user b' = Some (mkUser 3 ''u2@example.com'' ''Ugo'' ''https://meet.example.com/ugo'')"
    by (simp add: run_defs example_defs query_defs Let_def)
  then obtain b' where
    ok: "out_result (roundRobinManualReassignment example_deps example_db 101 3 None) = Inr b'" and
    b': "booking_userId b' = Some 3"
        "booking_user b' = Some (mkUser 3 ''u2@example.com'' ''Ugo'' ''https://meet.example.com/ugo'')"
    by blast
  have old: "booking_userId b = Some 2"
    unfolding b_def by (simp add: example_defs query_defs)
  have mail: "user_email (mkUser 3 ''u2@example.com'' ''Ugo'' ''https://meet.example.com/ugo'')
                = ''u2@example.com''"
    by (simp add: mkUser_def)
  from workflow_migration_schedules_before_it_deletes[OF 1 ok pk] b' old
  have wf: "list_ex isWorkflowEffect
              (out_effects (roundRobinManualReassignment example_deps example_db 101 3 None))"
    and cov: "\<forall>n. \<forall>rm \<in> set (workflowReminder_findMany example_db (booking_uid b)).
               \<forall>t. reminderTrigger rm = Some t \<longrightarrow>
                 hasReminderFor
                   (foldl applyToScheduler
                      \<lparr> sched_pending = workflowReminder_findMany example_db (booking_uid b),
                        sched_scheduled = [] \<rparr>
                      (take n (out_effects (roundRobinManualReassignment example_deps example_db 101 3 None))))
                   ''u2@example.com'' t"
    by (auto simp: mail)
  from cov[rule_format, of "mkReminder 901 ''uid-101'' BEFORE_EVENT" BEFORE_EVENT 7] tr
  have "hasReminderFor
          (foldl applyToScheduler
             \<lparr> sched_pending = workflowReminder_findMany example_db (booking_uid b),
               sched_scheduled = [] \<rparr>
             (take 7 (out_effects (roundRobinManualReassignment example_deps example_db 101 3 None))))
          ''u2@example.com'' BEFORE_EVENT"
    by (simp add: found)
  with pk ids wf ok b' old show ?thesis
    unfolding b_def[symmetric] by auto
qed

section \<open>Claims about the cancellation notification\<close>








end
